theory Spec2Isabelle
  imports Complex_Main
begin

section \<open>Raw upstream records\<close>

text \<open>
  The planner reads dict-shaped records of the upstream API. A numeric field that the code
  passes to Python's \<open>float()\<close> inside a \<open>try\<close> is one of three things: absent (or
  \<open>None\<close>), a value \<open>float()\<close> converts (a number, or a numeric string such as
  \<open>"2.7"\<close> or \<open>"-3"\<close>), or a value on which \<open>float()\<close> raises \<open>TypeError\<close> or
  \<open>ValueError\<close>. Python floats are idealised as real numbers (no rounding, no NaN).
\<close>

datatype raw = Missing | Num real | Unparsable

datatype py_error = TypeError | ValueError | KeyError

fun py_float :: "raw \<Rightarrow> py_error + real" where
  "py_float Missing = Inl TypeError"
| "py_float (Num v) = Inr v"
| "py_float Unparsable = Inl ValueError"

text \<open>
  The idiom \<open>try: v = float(raw) if raw is not None else 0.0; except (TypeError, ValueError): v = 0.0\<close>.
\<close>

definition float_or_zero :: "raw \<Rightarrow> real" where
  "float_or_zero r =
     (if r = Missing then 0
      else (case py_float r of Inr v \<Rightarrow> v | Inl _ \<Rightarrow> 0))"

text \<open>
  A bootstrap element. The identifier is an integer in every payload; the fields the code
  reads with \<open>int(e.get(k, 0) or 0)\<close> are optional integers.
\<close>

record element =
  el_id :: int
  element_type :: "int option"
  team :: "int option"
  now_cost :: "int option"
  form :: raw
  ict_index :: raw
  minutes :: "int option"
  selected_by_percent :: raw

section \<open>Scoring primitives\<close>

definition nz :: "real option \<Rightarrow> real \<Rightarrow> real" where
  "nz x d = (case x of Some v \<Rightarrow> v | None \<Rightarrow> d)"

definition sigmoid :: "real \<Rightarrow> real" where
  "sigmoid x = (if x \<ge> 50 then 1 else if x \<le> - 50 then 0 else 1 / (1 + exp (- x)))"

definition norm_lin :: "real \<Rightarrow> real \<Rightarrow> real \<Rightarrow> real" where
  "norm_lin x lo hi =
     (if hi = lo then 0
      else (let lo' = (if lo \<le> hi then lo else hi);
                hi' = (if lo \<le> hi then hi else lo);
                v = (x - lo') / (hi' - lo')
            in if v < 0 then 0 else if v > 1 then 1 else v))"

definition position_code :: "int \<Rightarrow> string" where
  "position_code t =
     (case map_of [(1, ''GK''), (2, ''DEF''), (3, ''MID''), (4, ''FWD'')] t of
        Some s \<Rightarrow> s | None \<Rightarrow> ''MID'')"

definition expected_points_delta :: "element \<Rightarrow> int \<Rightarrow> real \<Rightarrow> real" where
  "expected_points_delta player opponent_strength recent_minutes =
     (let form_n = norm_lin (float_or_zero (form player)) 0 10;
          ict_n = norm_lin (float_or_zero (ict_index player)) 0 20;
          mix = 0.6 * form_n + 0.4 * ict_n;
          m = sigmoid ((recent_minutes - 120) / 60);
          d = norm_lin (real_of_int opponent_strength) 5 1
      in 6 * mix * m * d)"


text \<open>
  \<open>int(v or d)\<close> for an optional integer field: \<open>None\<close> and \<open>0\<close> are both falsy.
\<close>

definition int_or :: "int option \<Rightarrow> int \<Rightarrow> int" where
  "int_or v d = (case v of None \<Rightarrow> d | Some x \<Rightarrow> if x = 0 then d else x)"

text \<open>
  The position bounds. The code indexes these dicts only with the keys \<open>DEF\<close>, \<open>MID\<close>,
  \<open>FWD\<close> (as literals, or as \<open>positions[pid]\<close> of a player filed under one of these keys),
  so a missing key cannot occur there.
\<close>

definition MIN_BY_POS :: "string \<Rightarrow> nat" where
  "MIN_BY_POS p = (case map_of [(''GK'', 1), (''DEF'', 3), (''MID'', 2), (''FWD'', 1)] p of
                    Some n \<Rightarrow> n | None \<Rightarrow> 0)"

definition MAX_BY_POS :: "string \<Rightarrow> nat" where
  "MAX_BY_POS p = (case map_of [(''GK'', 1), (''DEF'', 5), (''MID'', 5), (''FWD'', 3)] p of
                    Some n \<Rightarrow> n | None \<Rightarrow> 0)"

text \<open>Decimal rendering of a count, as an f-string does.\<close>

fun str_nat :: "nat \<Rightarrow> string" where
  "str_nat n = (if n < 10 then [''0123456789'' ! n]
                else str_nat (n div 10) @ [''0123456789'' ! (n mod 10)])"

declare str_nat.simps [simp del]

definition count_pos :: "(int \<rightharpoonup> string) \<Rightarrow> string \<Rightarrow> int list \<Rightarrow> nat" where
  "count_pos positions p ids = length (filter (\<lambda>i. positions i = Some p) ids)"

definition formation_str :: "int list \<Rightarrow> (int \<rightharpoonup> string) \<Rightarrow> string" where
  "formation_str ids positions =
     str_nat (count_pos positions ''DEF'' ids) @ ''-'' @
     str_nat (count_pos positions ''MID'' ids) @ ''-'' @
     str_nat (count_pos positions ''FWD'' ids)"

text \<open>
  A fixture row as the planner and the fixture linker build it.
\<close>

record fixture_row =
  was_home :: bool
  opponent_team :: "int option"
  opponent_strength :: "int option"

definition aggregate_epdelta_for_fixtures :: "element \<Rightarrow> fixture_row list \<Rightarrow> real" where
  "aggregate_epdelta_for_fixtures player fixtures_rows =
     (let pid_minutes = min (nz (map_option real_of_int (minutes player)) 0) 180;
          total = foldl (\<lambda>t fx. t + expected_points_delta player
                                     (int_or (opponent_strength fx) 3) pid_minutes)
                        0 fixtures_rows
      in if length fixtures_rows > 1 then total * 1.1 else total)"

section \<open>Dicts in insertion order\<close>

text \<open>
  A Python dict keeps its keys in the order of first insertion, and a later store to a key
  replaces the value. An EP\<Delta> dict is an association list with distinct keys.
\<close>

definition first_seen :: "'a list \<Rightarrow> 'a list" where
  "first_seen xs = rev (remdups (rev xs))"

definition ep_get :: "(int \<times> real) list \<Rightarrow> int \<Rightarrow> real \<Rightarrow> real" where
  "ep_get ep pid d = (case map_of ep pid of Some v \<Rightarrow> v | None \<Rightarrow> d)"

text \<open>
  \<open>xs.sort(key=k, reverse=True)\<close> is stable: equal keys keep their order.
\<close>

definition sort_desc :: "('a \<Rightarrow> real) \<Rightarrow> 'a list \<Rightarrow> 'a list" where
  "sort_desc k xs = sort_key (\<lambda>x. - k x) xs"

section \<open>Squad selector\<close>

definition pos_or_mid :: "(int \<rightharpoonup> string) \<Rightarrow> int \<Rightarrow> string" where
  "pos_or_mid positions pid = (case positions pid of Some s \<Rightarrow> s | None \<Rightarrow> ''MID'')"

definition by_pos :: "(int \<times> real) list \<Rightarrow> (int \<rightharpoonup> string) \<Rightarrow> string \<Rightarrow> (int \<times> real) list" where
  "by_pos ep_by_player positions p =
     sort_desc snd (filter (\<lambda>x. pos_or_mid positions (fst x) = p) ep_by_player)"

text \<open>Step B of \<open>choose_starting_xi\<close> for one outfield position.\<close>

definition fill_min ::
  "(int \<times> real) list \<Rightarrow> (int \<rightharpoonup> string) \<Rightarrow> int list \<times> (string \<Rightarrow> nat) \<Rightarrow> string
     \<Rightarrow> int list \<times> (string \<Rightarrow> nat)" where
  "fill_min ep_by_player positions st pos =
     (let selected = fst st; counts = snd st;
          need = MIN_BY_POS pos;
          pool = filter (\<lambda>pid. pid \<notin> set selected) (map fst (by_pos ep_by_player positions pos))
      in (selected @ take need pool, counts(pos := counts pos + min (length pool) need)))"

text \<open>
  Step C: the loop over the sorted candidates. \<open>positions[pid]\<close> raises \<open>KeyError\<close> for a
  player without a position entry.
\<close>

fun fill_rest ::
  "(int \<rightharpoonup> string) \<Rightarrow> (int \<times> real) list \<Rightarrow> int list \<times> (string \<Rightarrow> nat)
     \<Rightarrow> py_error + int list \<times> (string \<Rightarrow> nat)" where
  "fill_rest positions [] st = Inr st"
| "fill_rest positions (c # cs) st =
     (if length (fst st) \<ge> 11 then Inr st
      else (case positions (fst c) of
              None \<Rightarrow> Inl KeyError
            | Some pos \<Rightarrow>
                if snd st pos < MAX_BY_POS pos
                then fill_rest positions cs (fst st @ [fst c], (snd st)(pos := snd st pos + 1))
                else fill_rest positions cs st))"

text \<open>Step A and step B: the goalkeeper, then the minima of DEF, MID and FWD in turn.\<close>

definition xi_goalkeeper ::
  "(int \<times> real) list \<Rightarrow> (int \<rightharpoonup> string) \<Rightarrow> int list \<times> (string \<Rightarrow> nat)" where
  "xi_goalkeeper ep_by_player positions =
     (case by_pos ep_by_player positions ''GK'' of
        [] \<Rightarrow> ([], (\<lambda>_. 0))
      | g # _ \<Rightarrow> ([fst g], (\<lambda>_. 0)(''GK'' := 1)))"

definition xi_minima ::
  "(int \<times> real) list \<Rightarrow> (int \<rightharpoonup> string) \<Rightarrow> int list \<times> (string \<Rightarrow> nat)" where
  "xi_minima ep_by_player positions =
     foldl (fill_min ep_by_player positions) (xi_goalkeeper ep_by_player positions)
       [''DEF'', ''MID'', ''FWD'']"

definition xi_candidates ::
  "(int \<times> real) list \<Rightarrow> (int \<rightharpoonup> string) \<Rightarrow> int list \<Rightarrow> (int \<times> real) list" where
  "xi_candidates ep_by_player positions selected =
     sort_desc snd
       (concat (map (\<lambda>pos. filter (\<lambda>x. fst x \<notin> set selected)
                               (by_pos ep_by_player positions pos))
                    [''DEF'', ''MID'', ''FWD'']))"

text \<open>The bench: up to three outfielders by ascending EP\<Delta>, then one goalkeeper.\<close>

definition bench_order ::
  "(int \<times> real) list \<Rightarrow> (int \<rightharpoonup> string) \<Rightarrow> int list \<Rightarrow> int list" where
  "bench_order ep_by_player positions selected =
     (let all_ids = map fst ep_by_player;
          bench = filter (\<lambda>pid. pid \<notin> set selected) all_ids;
          outfield_bench = filter (\<lambda>pid. positions pid \<noteq> Some ''GK'') bench;
          gk_bench = filter (\<lambda>pid. positions pid = Some ''GK'') bench;
          outfield_sorted = sort_key (\<lambda>pid. ep_get ep_by_player pid 0) outfield_bench
      in take 3 outfield_sorted @ take 1 gk_bench)"

definition choose_starting_xi ::
  "(int \<times> real) list \<Rightarrow> (int \<rightharpoonup> string) \<Rightarrow> py_error + int list \<times> int list" where
  "choose_starting_xi ep_by_player positions =
     (let st1 = xi_minima ep_by_player positions
      in case fill_rest positions (xi_candidates ep_by_player positions (fst st1)) st1 of
           Inl e \<Rightarrow> Inl e
         | Inr st2 \<Rightarrow> Inr (fst st2, bench_order ep_by_player positions (fst st2)))"

section \<open>Captaincy and chips\<close>

text \<open>\<open>max(xs, key=k)\<close> returns the first maximal element.\<close>

fun max_by :: "('a \<Rightarrow> real) \<Rightarrow> 'a \<Rightarrow> 'a list \<Rightarrow> 'a" where
  "max_by k best [] = best"
| "max_by k best (x # xs) = max_by k (if k x > k best then x else best) xs"

text \<open>
  The candidates (the starters that are not goalkeepers), the ownership-adjusted score of
  one candidate, and the \<open>(pid, score, base)\<close> rows.
\<close>

definition captain_candidates :: "int list \<Rightarrow> (int \<rightharpoonup> string) \<Rightarrow> int list" where
  "captain_candidates starting_ids positions =
     filter (\<lambda>pid. positions pid \<noteq> Some ''GK'') starting_ids"

definition adjusted_score :: "(int \<times> real) list \<Rightarrow> (int \<rightharpoonup> real) \<Rightarrow> string \<Rightarrow> int \<Rightarrow> real" where
  "adjusted_score per_player_ep ownership_idx mode pid =
     (let own = (case ownership_idx pid of Some v \<Rightarrow> v | None \<Rightarrow> 0);
          base = ep_get per_player_ep pid 0
      in if mode = ''safe'' then base * (1 + min own 80 / 100)
         else base * (1 + max 0 (20 - min own 20) / 25))"

definition captain_scored ::
  "int list \<Rightarrow> (int \<times> real) list \<Rightarrow> (int \<rightharpoonup> real) \<Rightarrow> (int \<rightharpoonup> string) \<Rightarrow> string
     \<Rightarrow> (int \<times> real \<times> real) list" where
  "captain_scored starting_ids per_player_ep ownership_idx positions mode =
     map (\<lambda>pid. (pid, adjusted_score per_player_ep ownership_idx mode pid,
                 ep_get per_player_ep pid 0))
         (captain_candidates starting_ids positions)"

definition recommend_captain_from_ids ::
  "int list \<Rightarrow> (int \<times> real) list \<Rightarrow> (int \<rightharpoonup> real) \<Rightarrow> (int \<rightharpoonup> string) \<Rightarrow> string
     \<Rightarrow> int \<times> int" where
  "recommend_captain_from_ids starting_ids per_player_ep ownership_idx positions mode =
     (case sort_desc (\<lambda>x. fst (snd x))
             (captain_scored starting_ids per_player_ep ownership_idx positions mode) of
        [] \<Rightarrow> (0, 0)
      | best # rest \<Rightarrow>
          (let top_pid = (if snd (snd best) < 0.8
                          then fst (max_by (\<lambda>x. snd (snd x)) best rest)
                          else fst best);
               vice_pid = (case filter (\<lambda>x. fst x \<noteq> top_pid) (best # rest) of
                             [] \<Rightarrow> 0 | v # _ \<Rightarrow> fst v)
           in (top_pid, vice_pid)))"

record chip_eval =
  bench_boost_gain :: real
  triple_captain_gain :: real

definition evaluate_chips :: "(int \<times> real) list \<Rightarrow> int \<Rightarrow> int list \<Rightarrow> chip_eval" where
  "evaluate_chips per_player_ep captain_id bench_ids =
     \<lparr>bench_boost_gain = sum_list (map (\<lambda>pid. ep_get per_player_ep pid 0) bench_ids),
      triple_captain_gain = ep_get per_player_ep captain_id 0\<rparr>"

section \<open>Gameweek planner\<close>

record pick =
  pk_element :: int
  multiplier :: int
  is_captain :: bool
  is_vice_captain :: bool

record team_rec =
  tm_id :: int
  strength :: "int option"

record fixture =
  team_h :: "int option"
  team_a :: "int option"

text \<open>
  \<open>{int(e.get("id")): e for e in elements}\<close>: a later record with the same id replaces an
  earlier one. \<open>elem_by_id.get(eid, {})\<close> yields the empty dict for an unknown id, every
  field of which reads as absent.
\<close>

definition elem_by_id :: "element list \<Rightarrow> (int \<rightharpoonup> element)" where
  "elem_by_id elements = map_of (rev (map (\<lambda>e. (el_id e, e)) elements))"

definition empty_element :: element where
  "empty_element = \<lparr>el_id = 0, element_type = None, team = None, now_cost = None,
                     form = Missing, ict_index = Missing, minutes = None,
                     selected_by_percent = Missing\<rparr>"

definition get_elem :: "element list \<Rightarrow> int \<Rightarrow> element" where
  "get_elem elements eid = (case elem_by_id elements eid of Some e \<Rightarrow> e | None \<Rightarrow> empty_element)"

definition team_idx :: "team_rec list \<Rightarrow> (int \<rightharpoonup> team_rec)" where
  "team_idx teams = map_of (rev (map (\<lambda>t. (tm_id t, t)) teams))"

definition team_strength :: "team_rec list \<Rightarrow> int \<Rightarrow> int" where
  "team_strength teams t =
     int_or (case team_idx teams t of Some r \<Rightarrow> strength r | None \<Rightarrow> None) 3"

definition plan_positions :: "pick list \<Rightarrow> element list \<Rightarrow> (int \<rightharpoonup> string)" where
  "plan_positions picks elements =
     (\<lambda>eid. if eid \<in> pk_element ` set picks
            then Some (position_code (int_or (element_type (get_elem elements eid)) 0))
            else None)"

definition fixtures_by_team :: "team_rec list \<Rightarrow> fixture list \<Rightarrow> int \<Rightarrow> fixture_row list" where
  "fixtures_by_team teams fixtures_gw t =
     concat (map (\<lambda>fx.
        let h = int_or (team_h fx) 0; a = int_or (team_a fx) 0
        in (if h = t then [\<lparr>was_home = True, opponent_team = Some a,
                             opponent_strength = Some (team_strength teams a)\<rparr>] else []) @
           (if a = t then [\<lparr>was_home = False, opponent_team = Some h,
                             opponent_strength = Some (team_strength teams h)\<rparr>] else []))
       fixtures_gw)"

text \<open>\<open>round(x, 2)\<close> on the idealised reals: to the nearest hundredth, ties to even.\<close>

definition round_half_even :: "real \<Rightarrow> int" where
  "round_half_even y =
     (let f = \<lfloor>y\<rfloor>; r = y - real_of_int f
      in if r < 1 / 2 then f else if r > 1 / 2 then f + 1 else if even f then f else f + 1)"

definition round2 :: "real \<Rightarrow> real" where
  "round2 x = real_of_int (round_half_even (x * 100)) / 100"

definition plan_ep_by_player ::
  "pick list \<Rightarrow> element list \<Rightarrow> team_rec list \<Rightarrow> fixture list \<Rightarrow> (int \<times> real) list" where
  "plan_ep_by_player picks elements teams fixtures_gw =
     map (\<lambda>eid.
            let e = get_elem elements eid;
                team_id = int_or (team e) 0;
                fx_rows = fixtures_by_team teams fixtures_gw team_id
            in (eid, round2 (aggregate_epdelta_for_fixtures e fx_rows)))
         (first_seen (map pk_element picks))"

text \<open>
  The promotion loop of the goalkeeper repair: the first bench outfielder, in descending
  EP\<Delta> order, that is not already starting, provided fewer than 11 players start.
\<close>

fun promote :: "int list \<Rightarrow> int list \<Rightarrow> int list \<Rightarrow> int list \<times> int list" where
  "promote current_start current_bench [] = (current_start, current_bench)"
| "promote current_start current_bench (pid # rest) =
     (if pid \<notin> set current_start \<and> length current_start < 11
      then (current_start @ [pid], remove1 pid current_bench)
      else promote current_start current_bench rest)"

definition repair_current ::
  "(int \<rightharpoonup> string) \<Rightarrow> (int \<times> real) list \<Rightarrow> int list \<Rightarrow> int list \<Rightarrow> int list \<times> int list" where
  "repair_current positions ep_by_player current_start current_bench =
     (let current_gks = filter (\<lambda>pid. positions pid = Some ''GK'') current_start
      in if length current_gks > 1
         then (let sorted_gks = sort_desc (\<lambda>pid. ep_get ep_by_player pid 0) current_gks;
                   st = foldl (\<lambda>st g. (remove1 g (fst st), snd st @ [g]))
                              (current_start, current_bench) (tl sorted_gks);
                   outfield_bench = sort_desc (\<lambda>pid. ep_get ep_by_player pid 0)
                                      (filter (\<lambda>pid. positions pid \<noteq> Some ''GK'') (snd st))
               in promote (fst st) (snd st) outfield_bench)
         else (current_start, current_bench))"

definition is_legal_start :: "(int \<rightharpoonup> string) \<Rightarrow> int list \<Rightarrow> bool" where
  "is_legal_start positions starters =
     (let g = count_pos positions ''GK'' starters;
          d = count_pos positions ''DEF'' starters;
          m = count_pos positions ''MID'' starters;
          f = count_pos positions ''FWD'' starters
      in if length starters \<noteq> 11 then False
         else if g \<noteq> 1 then False
         else if d < MIN_BY_POS ''DEF'' \<or> m < MIN_BY_POS ''MID'' \<or> f < MIN_BY_POS ''FWD'' then False
         else if d > MAX_BY_POS ''DEF'' \<or> m > MAX_BY_POS ''MID'' \<or> f > MAX_BY_POS ''FWD'' then False
         else True)"

definition swap_pairs :: "(int \<times> real) list \<Rightarrow> int list \<Rightarrow> int list \<Rightarrow> (int \<times> int \<times> real) list" where
  "swap_pairs ep_by_player start_in bench_out =
     sort_desc (\<lambda>t. snd (snd t))
       (concat (map (\<lambda>i. concat (map (\<lambda>out.
            let delta = ep_get ep_by_player i 0 - ep_get ep_by_player out 0
            in if delta \<ge> 0.20 then [(i, out, delta)] else []) bench_out)) start_in))"

text \<open>
  The greedy selection. The state is \<open>(chosen_pairs, used_in, used_out, trial_start)\<close>.
\<close>

fun greedy_swaps ::
  "(int \<rightharpoonup> string) \<Rightarrow> (int \<times> int \<times> real) list
     \<Rightarrow> (int \<times> int \<times> real) list \<times> int set \<times> int set \<times> int list
     \<Rightarrow> (int \<times> int \<times> real) list \<times> int set \<times> int set \<times> int list" where
  "greedy_swaps positions [] st = st"
| "greedy_swaps positions ((i, out, d) # ps) (chosen_pairs, used_in, used_out, trial_start) =
     (if i \<in> used_in \<or> out \<in> used_out
      then greedy_swaps positions ps (chosen_pairs, used_in, used_out, trial_start)
      else (let nxt = filter (\<lambda>pid. pid \<noteq> out) trial_start @ [i]
            in if is_legal_start positions nxt
               then greedy_swaps positions ps
                      (chosen_pairs @ [(i, out, d)], insert i used_in, insert out used_out, nxt)
               else greedy_swaps positions ps (chosen_pairs, used_in, used_out, trial_start)))"

text \<open>
  The returned actions. Every swap carries the same bundle identifier \<open>lineup-<gw>-1\<close>,
  which is therefore left out; presentation strings (names, reasons, summaries) are left
  out as well. A chip action carries a reason code only when the chip is \<open>NONE\<close>.
\<close>

datatype action =
    Swap nat int int real
  | Set_captain nat int
  | Set_vice nat int
  | Chip nat string "string option"

fun priority :: "action \<Rightarrow> nat" where
  "priority (Swap p _ _ _) = p"
| "priority (Set_captain p _) = p"
| "priority (Set_vice p _) = p"
| "priority (Chip p _ _) = p"

fun is_swap :: "action \<Rightarrow> bool" where
  "is_swap (Swap _ _ _ _) = True"
| "is_swap _ = False"


fun in_player :: "action \<Rightarrow> int" where
  "in_player (Swap _ i _ _) = i"
| "in_player _ = 0"

fun out_player :: "action \<Rightarrow> int" where
  "out_player (Swap _ _ out _) = out"
| "out_player _ = 0"

fun swap_actions :: "nat \<Rightarrow> (int \<times> int \<times> real) list \<Rightarrow> action list" where
  "swap_actions prio [] = []"
| "swap_actions prio ((i, out, d) # ps) = Swap prio i out (round2 d) # swap_actions (prio + 1) ps"

definition chip_action :: "chip_eval \<Rightarrow> action" where
  "chip_action ce =
     (if bench_boost_gain ce \<ge> 12.0 then Chip 90 ''BB'' None
      else if triple_captain_gain ce \<ge> 4.0 then Chip 90 ''TC'' None
      else Chip 90 ''NONE'' (Some ''below_threshold''))"

record plan =
  formation_current :: string
  formation_optimal :: string
  current_start :: "int list"
  current_bench :: "int list"
  optimal_start :: "int list"
  optimal_bench :: "int list"
  captain :: int
  vice_captain :: int
  ep_total_current :: real
  ep_total_optimal :: real
  bench_ep_total :: real
  chip_evaluation :: chip_eval
  per_player_ep :: "(int \<times> real) list"
  actions :: "action list"

text \<open>The manager's own starters and bench: the picks with a positive multiplier, and the rest.\<close>

definition picked_start :: "pick list \<Rightarrow> int list" where
  "picked_start picks = map pk_element (filter (\<lambda>p. multiplier p > 0) picks)"

definition picked_bench :: "pick list \<Rightarrow> int list" where
  "picked_bench picks = map pk_element (filter (\<lambda>p. multiplier p \<le> 0) picks)"

definition plan_gameweek ::
  "pick list \<Rightarrow> element list \<Rightarrow> team_rec list \<Rightarrow> fixture list \<Rightarrow> (int \<rightharpoonup> real) \<Rightarrow> string
     \<Rightarrow> py_error + plan" where
  "plan_gameweek picks elements teams fixtures_gw ownership_idx mode =
     (let positions = plan_positions picks elements;
          ep_by_player = plan_ep_by_player picks elements teams fixtures_gw;
          cur = repair_current positions ep_by_player
                  (picked_start picks)
                  (picked_bench picks);
          cur_start = fst cur; cur_bench = snd cur
      in case choose_starting_xi ep_by_player positions of
           Inl e \<Rightarrow> Inl e
         | Inr opt \<Rightarrow>
            (let opt_start = fst opt; opt_bench = snd opt;
                 cv = recommend_captain_from_ids opt_start ep_by_player ownership_idx positions mode;
                 cap = fst cv; vice = snd cv;
                 chip_ev = evaluate_chips ep_by_player cap opt_bench;
                 curr_cap = map_option pk_element (find is_captain picks);
                 curr_vc = map_option pk_element (find is_vice_captain picks);
                 start_in = filter (\<lambda>pid. pid \<notin> set cur_start) opt_start;
                 bench_out = filter (\<lambda>pid. pid \<notin> set opt_start) cur_start;
                 pairs = swap_pairs ep_by_player start_in bench_out;
                 chosen_pairs = fst (greedy_swaps positions pairs ([], {}, {}, cur_start));
                 acts = swap_actions 10 chosen_pairs
                        @ (if cap \<noteq> 0 \<and> Some cap \<noteq> curr_cap then [Set_captain 50 cap] else [])
                        @ (if vice \<noteq> 0 \<and> Some vice \<noteq> curr_vc then [Set_vice 60 vice] else [])
                        @ [chip_action chip_ev]
             in Inr \<lparr>formation_current = formation_str cur_start positions,
                     formation_optimal = formation_str opt_start positions,
                     current_start = cur_start,
                     current_bench = cur_bench,
                     optimal_start = opt_start,
                     optimal_bench = opt_bench,
                     captain = cap,
                     vice_captain = vice,
                     ep_total_current = sum_list (map (\<lambda>i. ep_get ep_by_player i 0) cur_start),
                     ep_total_optimal = sum_list (map (\<lambda>i. ep_get ep_by_player i 0) opt_start),
                     bench_ep_total = sum_list (map (\<lambda>i. ep_get ep_by_player i 0) opt_bench),
                     chip_evaluation = chip_ev,
                     per_player_ep = ep_by_player,
                     actions = acts\<rparr>))"

text \<open>
  Applying swap actions to a starting set, each swap removing its out player and adding
  its in player.
\<close>

definition apply_swaps :: "action list \<Rightarrow> int set \<Rightarrow> int set" where
  "apply_swaps swaps start = foldl (\<lambda>s a. insert (in_player a) (s - {out_player a})) start swaps"

definition swaps_by_priority :: "action list \<Rightarrow> action list" where
  "swaps_by_priority acts = sort_key priority (filter is_swap acts)"

section \<open>The request handler's guardrail\<close>

text \<open>
  The handler \<open>get_gameweek_planner\<close> in \<open>routes.py\<close> validates the plan it received
  from \<open>plan_gameweek\<close>; any exception raised inside the validation becomes an HTTP 500
  response \<open>Planner validation failed\<close>. The state of the loop is
  \<open>(start_set, bench_set)\<close>.
\<close>

datatype http_error = Planner_validation_failed string | Unhandled py_error

fun guard_swaps :: "action list \<Rightarrow> int set \<times> int set \<Rightarrow> string + int set \<times> int set" where
  "guard_swaps [] st = Inr st"
| "guard_swaps (sw # sws) st =
     (let inn = in_player sw; outn = out_player sw
      in if inn \<notin> snd st \<or> outn \<notin> fst st then Inl ''Invalid swap order''
         else (let start_set = insert inn (fst st - {outn});
                   bench_set = insert outn (snd st - {inn})
               in if card start_set \<noteq> 11 then Inl ''Starters count must remain 11 after swap''
                  else guard_swaps sws (start_set, bench_set)))"

definition guard_positions :: "element list \<Rightarrow> plan \<Rightarrow> (int \<rightharpoonup> string)" where
  "guard_positions elements resp =
     (\<lambda>pid. if pid \<in> set (current_start resp @ optimal_start resp)
            then Some (position_code (int_or (element_type (get_elem elements pid)) 0))
            else None)"

definition planner_guard :: "element list \<Rightarrow> plan \<Rightarrow> string + unit" where
  "planner_guard elements resp =
     (case guard_swaps (swaps_by_priority (actions resp))
             (set (current_start resp), set (current_bench resp)) of
        Inl msg \<Rightarrow> Inl msg
      | Inr st \<Rightarrow>
          if sorted_list_of_set (fst st) \<noteq> sort (optimal_start resp)
          then Inl ''Swaps do not yield optimal_start''
          else if formation_str (optimal_start resp) (guard_positions elements resp)
                    \<noteq> formation_optimal resp
          then Inl ''formation_optimal does not match derived positions''
          else Inr ())"

section \<open>Ownership and transfers\<close>

definition ownership_index :: "element list \<Rightarrow> (int \<rightharpoonup> real)" where
  "ownership_index elements =
     map_of (rev (map (\<lambda>e. (el_id e, float_or_zero (selected_by_percent e))) elements))"

definition get_gameweek_planner ::
  "pick list \<Rightarrow> element list \<Rightarrow> team_rec list \<Rightarrow> fixture list \<Rightarrow> string \<Rightarrow> http_error + plan" where
  "get_gameweek_planner picks elements teams fixtures_gw mode =
     (case plan_gameweek picks elements teams fixtures_gw (ownership_index elements) mode of
        Inl e \<Rightarrow> Inl (Unhandled e)
      | Inr resp \<Rightarrow>
          (case planner_guard elements resp of
             Inl msg \<Rightarrow> Inl (Planner_validation_failed msg)
           | Inr _ \<Rightarrow> Inr resp))"

text \<open>
  A pick row as \<open>link_fixtures_for_manager\<close> produces it: the pick, the player record (or
  \<open>None\<close>) and the fixture row (\<open>None\<close> stands for the empty dict).
\<close>

record pick_row =
  pr_element :: int
  pr_multiplier :: int
  pr_player :: "element option"
  pr_fixture_row :: "fixture_row option"

record suggestion =
  sg_out :: int
  sg_in :: int
  epdelta_out :: real
  epdelta_in :: real

definition meta_cost :: "element list \<Rightarrow> int \<Rightarrow> int" where
  "meta_cost elements pid = int_or (now_cost (get_elem elements pid)) 0"

definition meta_team :: "element list \<Rightarrow> int \<Rightarrow> int" where
  "meta_team elements pid = int_or (team (get_elem elements pid)) 0"

definition meta_pos :: "element list \<Rightarrow> int \<Rightarrow> string" where
  "meta_pos elements pid = position_code (int_or (element_type (get_elem elements pid)) 0)"

definition minutes_proxy :: "element \<Rightarrow> real" where
  "minutes_proxy e = min (nz (map_option real_of_int (minutes e)) 0) 180"

definition current_scored :: "pick_row list \<Rightarrow> (int \<times> real) list" where
  "current_scored pick_rows =
     concat (map (\<lambda>row.
        if pr_multiplier row \<le> 0 then []
        else (case (pr_player row, pr_fixture_row row) of
                (Some player, Some fx) \<Rightarrow>
                  [(pr_element row,
                    expected_points_delta player (int_or (opponent_strength fx) 3)
                      (minutes_proxy player))]
              | _ \<Rightarrow> [])) pick_rows)"

definition candidate_scores :: "pick_row list \<Rightarrow> element list \<Rightarrow> (int \<times> real) list" where
  "candidate_scores pick_rows elements =
     map (\<lambda>pid. (pid, expected_points_delta (get_elem elements pid) 3
                        (minutes_proxy (get_elem elements pid))))
         (first_seen (filter (\<lambda>pid. pid \<notin> pr_element ` set pick_rows) (map el_id elements)))"

definition legal_candidates ::
  "element list \<Rightarrow> (int \<times> real) list \<Rightarrow> (int \<Rightarrow> int) \<Rightarrow> int \<Rightarrow> int \<Rightarrow> int \<Rightarrow> real
     \<Rightarrow> (int \<times> real) list" where
  "legal_candidates elements cands team_counts bank allowance out_id out_epd =
     filter (\<lambda>c.
        let in_id = fst c; in_epd = snd c; in_team = meta_team elements in_id
        in meta_pos elements in_id = meta_pos elements out_id
           \<and> \<not> (in_team \<noteq> meta_team elements out_id \<and> team_counts in_team \<ge> 3)
           \<and> \<not> (meta_cost elements in_id - meta_cost elements out_id > bank + allowance)
           \<and> \<not> (in_epd \<le> out_epd)) cands"

text \<open>
  The loop over the sell candidates. The state is \<open>(team_counts, bank, suggestions)\<close>.
  After the inner \<open>for\<close> loop the variable \<open>in_meta\<close> still holds the metadata of the
  last candidate iterated, and the state update reads its team and cost from there.
\<close>

fun transfer_loop ::
  "element list \<Rightarrow> (int \<times> real) list \<Rightarrow> (int \<times> real) list \<Rightarrow> int \<Rightarrow> int list
     \<Rightarrow> (int \<Rightarrow> int) \<times> int \<times> suggestion list \<Rightarrow> (int \<Rightarrow> int) \<times> int \<times> suggestion list" where
  "transfer_loop elements scored cands allowance [] st = st"
| "transfer_loop elements scored cands allowance (out_id # outs) (team_counts, bank, suggestions) =
     (let out_epd = (case filter (\<lambda>x. fst x = out_id) scored of [] \<Rightarrow> 0 | x # _ \<Rightarrow> snd x);
          out_cost = meta_cost elements out_id;
          out_team = meta_team elements out_id
      in case sort_desc snd
                (legal_candidates elements cands team_counts bank allowance out_id out_epd) of
           [] \<Rightarrow> transfer_loop elements scored cands allowance outs (team_counts, bank, suggestions)
         | chosen # _ \<Rightarrow>
             (let in_meta = fst (last cands);
                  tc1 = team_counts(out_team := max 0 (team_counts out_team - 1));
                  tc2 = tc1(meta_team elements in_meta := tc1 (meta_team elements in_meta) + 1)
              in transfer_loop elements scored cands allowance outs
                   (tc2,
                    bank - (meta_cost elements in_meta - out_cost),
                    suggestions @ [\<lparr>sg_out = out_id, sg_in = fst chosen,
                                     epdelta_out = out_epd, epdelta_in = snd chosen\<rparr>])))"

definition initial_team_counts :: "pick_row list \<Rightarrow> element list \<Rightarrow> int \<Rightarrow> int" where
  "initial_team_counts pick_rows elements tm =
     int (length (filter (\<lambda>pid. meta_team elements pid = tm)
                         (remdups (map pr_element pick_rows))))"

definition suggest_transfers :: "pick_row list \<Rightarrow> element list \<Rightarrow> int \<Rightarrow> int \<Rightarrow> suggestion list" where
  "suggest_transfers pick_rows elements bank bank_allowance =
     (let scored = sort_key snd (current_scored pick_rows);
          to_replace = map fst (take 3 scored)
      in snd (snd (transfer_loop elements scored (candidate_scores pick_rows elements)
                     bank_allowance to_replace
                     (initial_team_counts pick_rows elements, bank, []))))"


text \<open>
  A valid 15-player squad, in the words of the specification: an EP\<Delta> dict (distinct
  keys) and a positions map under which the squad has 2 GK, 5 DEF, 5 MID and 3 FWD.
\<close>

definition valid_squad :: "(int \<times> real) list \<Rightarrow> (int \<rightharpoonup> string) \<Rightarrow> bool" where
  "valid_squad ep_by_player positions =
     (distinct (map fst ep_by_player) \<and> length ep_by_player = 15
      \<and> count_pos positions ''GK'' (map fst ep_by_player) = 2
      \<and> count_pos positions ''DEF'' (map fst ep_by_player) = 5
      \<and> count_pos positions ''MID'' (map fst ep_by_player) = 5
      \<and> count_pos positions ''FWD'' (map fst ep_by_player) = 3)"

text \<open>A sample squad: an EP\<Delta> dict in pick order and its positions.\<close>

definition sample_ep :: "(int \<times> real) list" where
  "sample_ep = [(1, 0.9), (3, 0.9), (4, 0.9), (5, 0.9), (6, 0.9), (8, 0.9), (9, 0.9), (10, 0.9),
                (11, 0), (13, 0.9), (14, 0.9), (2, 0), (7, 0), (12, 0.18), (15, 0)]"

definition sample_positions :: "int \<rightharpoonup> string" where
  "sample_positions = map_of
     [(1, ''GK''), (2, ''GK''),
      (3, ''DEF''), (4, ''DEF''), (5, ''DEF''), (6, ''DEF''), (7, ''DEF''),
      (8, ''MID''), (9, ''MID''), (10, ''MID''), (11, ''MID''), (12, ''MID''),
      (13, ''FWD''), (14, ''FWD''), (15, ''FWD'')]"

text \<open>
  The sample squad as a full planner input: fifteen players of team 1, which hosts team 2
  (strength 5) in the gameweek; every player has 120 recent minutes and no \<open>ict_index\<close>,
  so his EP\<Delta> is 0.18 times his form. Player 12 (form 1) sits on the bench and player 11
  (form 0) starts. Player 8 is the manager's captain and player 9 his vice-captain.
\<close>

definition squad_element :: "int \<Rightarrow> int \<Rightarrow> real \<Rightarrow> element" where
  "squad_element i ty f =
     \<lparr>el_id = i, element_type = Some ty, team = Some 1, now_cost = Some 50, form = Num f,
      ict_index = Missing, minutes = Some 120, selected_by_percent = Num 10\<rparr>"

definition squad_pick :: "int \<Rightarrow> int \<Rightarrow> pick" where
  "squad_pick i m = \<lparr>pk_element = i, multiplier = m, is_captain = (i = 8),
                      is_vice_captain = (i = 9)\<rparr>"

definition sample_elements :: "element list" where
  "sample_elements =
     [squad_element 1 1 5, squad_element 2 1 0,
      squad_element 3 2 5, squad_element 4 2 5, squad_element 5 2 5, squad_element 6 2 5,
      squad_element 7 2 0,
      squad_element 8 3 5, squad_element 9 3 5, squad_element 10 3 5, squad_element 11 3 0,
      squad_element 12 3 1,
      squad_element 13 4 5, squad_element 14 4 5, squad_element 15 4 0]"

definition sample_teams :: "team_rec list" where
  "sample_teams = [\<lparr>tm_id = 1, strength = Some 3\<rparr>, \<lparr>tm_id = 2, strength = Some 5\<rparr>]"

definition sample_fixtures :: "fixture list" where
  "sample_fixtures = [\<lparr>team_h = Some 1, team_a = Some 2\<rparr>]"

text \<open>
  Picks in the order 1, 3, 4, 5, 6, 8, 9, 10, 11, 13, 14, 2, 7, 12, 15 with the given
  multipliers.
\<close>

definition squad_picks :: "int list \<Rightarrow> pick list" where
  "squad_picks ms = map (\<lambda>x. squad_pick (fst x) (snd x))
                        (zip [1, 3, 4, 5, 6, 8, 9, 10, 11, 13, 14, 2, 7, 12, 15] ms)"

definition sample_picks :: "pick list" where
  "sample_picks = squad_picks [1, 1, 1, 1, 1, 1, 1, 1, 1, 1, 1, 0, 0, 0, 0]"

definition sample_plan :: plan where
  "sample_plan =
     \<lparr>formation_current = ''4-4-2'',
      formation_optimal = ''4-4-2'',
      current_start = [1, 3, 4, 5, 6, 8, 9, 10, 11, 13, 14],
      current_bench = [2, 7, 12, 15],
      optimal_start = [1, 3, 4, 5, 8, 9, 13, 6, 10, 14, 12],
      optimal_bench = [11, 7, 15, 2],
      captain = 3,
      vice_captain = 4,
      ep_total_current = 9,
      ep_total_optimal = 9.18,
      bench_ep_total = 0,
      chip_evaluation = \<lparr>bench_boost_gain = 0, triple_captain_gain = 0.9\<rparr>,
      per_player_ep = sample_ep,
      actions = [Set_captain 50 3, Set_vice 60 4, Chip 90 ''NONE'' (Some ''below_threshold'')]\<rparr>"

text \<open>
  A transfer request for the sample squad: the pick rows as the fixture linker produces
  them (every player meets team 2, strength 5), and the bootstrap elements extended by two
  players outside the squad, a goalkeeper (id 22, cost 55) and a midfielder (id 21,
  cost 45). Every squad player costs 50.
\<close>

definition transfer_rows :: "pick_row list" where
  "transfer_rows =
     map (\<lambda>p. \<lparr>pr_element = pk_element p, pr_multiplier = multiplier p,
                 pr_player = Some (get_elem sample_elements (pk_element p)),
                 pr_fixture_row = Some \<lparr>was_home = True, opponent_team = Some 2,
                                        opponent_strength = Some 5\<rparr>\<rparr>)
         sample_picks"

definition transfer_elements :: "element list" where
  "transfer_elements = sample_elements @
     [\<lparr>el_id = 22, element_type = Some 1, team = Some 3, now_cost = Some 55, form = Num 10,
       ict_index = Num 20, minutes = Some 120, selected_by_percent = Num 1\<rparr>,
      \<lparr>el_id = 21, element_type = Some 3, team = Some 2, now_cost = Some 45, form = Num 5,
       ict_index = Missing, minutes = Some 120, selected_by_percent = Num 1\<rparr>]"

section \<open>Properties of the scoring primitives\<close>

lemma norm_lin_nonneg: "0 \<le> norm_lin x lo hi"
  by (simp add: norm_lin_def Let_def)

lemma norm_lin_mono: "x \<le> y \<Longrightarrow> norm_lin x lo hi \<le> norm_lin y lo hi"
proof -
  assume xy: "x \<le> y"
  show ?thesis
  proof (cases "hi = lo")
    case True
    then show ?thesis by (simp add: norm_lin_def)
  next
    case False
    define lo' where "lo' = (if lo \<le> hi then lo else hi)"
    define hi' where "hi' = (if lo \<le> hi then hi else lo)"
    have pos: "0 < hi' - lo'" using False by (simp add: lo'_def hi'_def)
    have le: "(x - lo') / (hi' - lo') \<le> (y - lo') / (hi' - lo')"
      using xy pos by (simp add: divide_right_mono)
    have ex: "norm_lin x lo hi = (let v = (x - lo') / (hi' - lo') in if v < 0 then 0 else if v > 1 then 1 else v)"
      using False by (simp add: norm_lin_def lo'_def hi'_def Let_def)
    have ey: "norm_lin y lo hi = (let v = (y - lo') / (hi' - lo') in if v < 0 then 0 else if v > 1 then 1 else v)"
      using False by (simp add: norm_lin_def lo'_def hi'_def Let_def)
    show ?thesis using le unfolding ex ey Let_def by auto
  qed
qed

lemma sigmoid_nonneg: "0 \<le> sigmoid x"
proof -
  have "0 < 1 + exp (- x)" by (simp add: add_pos_pos)
  then show ?thesis by (simp add: sigmoid_def)
qed

lemma position_code_range:
  "position_code t \<in> {''GK'', ''DEF'', ''MID'', ''FWD''}"
  by (simp add: position_code_def)

lemma position_code_default: "t < 1 \<or> 4 < t \<Longrightarrow> position_code t = ''MID''"
  by (auto simp add: position_code_def)

lemma plan_positions_unknown:
  "eid \<in> pk_element ` set picks \<Longrightarrow> elem_by_id elements eid = None
     \<Longrightarrow> plan_positions picks elements eid = Some ''MID''"
  by (simp add: plan_positions_def get_elem_def empty_element_def int_or_def position_code_def)

section \<open>Claims about the scoring primitives and lookups\<close>

text \<open>
  C10. For every integer input \<open>position_code\<close> returns one of \<open>"GK"\<close>, \<open>"DEF"\<close>,
  \<open>"MID"\<close>, \<open>"FWD"\<close>, and it returns \<open>"MID"\<close> for every element type outside 1..4. In
  \<open>plan_gameweek\<close> a pick whose element type is absent or 0, or whose player record is
  not among the bootstrap elements, gets the position \<open>"MID"\<close>, and so counts as a
  midfielder in \<open>formation_str\<close> and in \<open>is_legal_start\<close>.
\<close>

theorem position_code_total_default_mid:
  "position_code t \<in> {''GK'', ''DEF'', ''MID'', ''FWD''}
   \<and> ((t < 1 \<or> 4 < t) \<longrightarrow> position_code t = ''MID'')
   \<and> (eid \<in> pk_element ` set picks \<and>
        (elem_by_id elements eid = None \<or> element_type (get_elem elements eid) = None
         \<or> element_type (get_elem elements eid) = Some 0)
        \<longrightarrow> plan_positions picks elements eid = Some ''MID''
            \<and> count_pos (plan_positions picks elements) ''MID'' [eid] = 1
            \<and> formation_str [eid] (plan_positions picks elements) = ''0-1-0'')"
proof -
  have a: "position_code t \<in> {''GK'', ''DEF'', ''MID'', ''FWD''}"
    by (rule position_code_range)
  have b: "(t < 1 \<or> 4 < t) \<longrightarrow> position_code t = ''MID''"
    using position_code_default by blast
  have c: "plan_positions picks elements eid = Some ''MID''"
    if h: "eid \<in> pk_element ` set picks"
       "elem_by_id elements eid = None \<or> element_type (get_elem elements eid) = None
         \<or> element_type (get_elem elements eid) = Some 0"
  proof -
    have "int_or (element_type (get_elem elements eid)) 0 = 0"
      using h(2) by (auto simp add: get_elem_def empty_element_def int_or_def)
    then show ?thesis using h(1) by (simp add: plan_positions_def position_code_def)
  qed
  have d: "count_pos P ''MID'' [eid] = 1 \<and> formation_str [eid] P = ''0-1-0''"
    if "P eid = Some ''MID''" for P
    using that by (simp add: count_pos_def formation_str_def str_nat.simps)
  show ?thesis using a b c d by blast
qed

theorem position_code_total_default_mid_witness:
  "position_code 7 = ''MID''
   \<and> plan_positions [\<lparr>pk_element = 9, multiplier = 1, is_captain = False, is_vice_captain = False\<rparr>] [] 9
       = Some ''MID''
   \<and> formation_str [9]
        (plan_positions [\<lparr>pk_element = 9, multiplier = 1, is_captain = False, is_vice_captain = False\<rparr>] [])
       = ''0-1-0''"
  using position_code_total_default_mid [of 7 9
      "[\<lparr>pk_element = 9, multiplier = 1, is_captain = False, is_vice_captain = False\<rparr>]" "[]"]
  by (simp add: elem_by_id_def)


lemma epd_nonneg_parts:
  "0 \<le> 0.6 * norm_lin a 0 10 + 0.4 * norm_lin b 0 20"
  using norm_lin_nonneg[of a 0 10] norm_lin_nonneg[of b 0 20] by simp

lemma expected_points_delta_form_mono:
  "f1 \<le> f2 \<Longrightarrow> expected_points_delta (p\<lparr>form := Num f1\<rparr>) s m
                 \<le> expected_points_delta (p\<lparr>form := Num f2\<rparr>) s m"
proof -
  assume le: "f1 \<le> f2"
  define k where "k = sigmoid ((m - 120) / 60) * norm_lin (real_of_int s) 5 1"
  have k0: "0 \<le> k" unfolding k_def using sigmoid_nonneg norm_lin_nonneg by simp
  have n: "norm_lin f1 0 10 \<le> norm_lin f2 0 10" using le by (rule norm_lin_mono)
  have e: "expected_points_delta (p\<lparr>form := Num f\<rparr>) s m
        = 6 * (0.6 * norm_lin f 0 10 + 0.4 * norm_lin (float_or_zero (ict_index p)) 0 20) * k" for f
    by (simp add: expected_points_delta_def Let_def float_or_zero_def k_def)
  have "6 * (0.6 * norm_lin f1 0 10 + 0.4 * norm_lin (float_or_zero (ict_index p)) 0 20)
      \<le> 6 * (0.6 * norm_lin f2 0 10 + 0.4 * norm_lin (float_or_zero (ict_index p)) 0 20)"
    using n by simp
  then show ?thesis unfolding e using k0 by (rule mult_right_mono)
qed

lemma expected_points_delta_ict_mono:
  "i1 \<le> i2 \<Longrightarrow> expected_points_delta (p\<lparr>ict_index := Num i1\<rparr>) s m
                 \<le> expected_points_delta (p\<lparr>ict_index := Num i2\<rparr>) s m"
proof -
  assume le: "i1 \<le> i2"
  define k where "k = sigmoid ((m - 120) / 60) * norm_lin (real_of_int s) 5 1"
  have k0: "0 \<le> k" unfolding k_def using sigmoid_nonneg norm_lin_nonneg by simp
  have n: "norm_lin i1 0 20 \<le> norm_lin i2 0 20" using le by (rule norm_lin_mono)
  have e: "expected_points_delta (p\<lparr>ict_index := Num i\<rparr>) s m
        = 6 * (0.6 * norm_lin (float_or_zero (form p)) 0 10 + 0.4 * norm_lin i 0 20) * k" for i
    by (simp add: expected_points_delta_def Let_def float_or_zero_def k_def)
  have "6 * (0.6 * norm_lin (float_or_zero (form p)) 0 10 + 0.4 * norm_lin i1 0 20)
      \<le> 6 * (0.6 * norm_lin (float_or_zero (form p)) 0 10 + 0.4 * norm_lin i2 0 20)"
    using n by simp
  then show ?thesis unfolding e using k0 by (rule mult_right_mono)
qed

lemma mix_nonneg: "0 \<le> 6 * (0.6 * norm_lin a 0 10 + 0.4 * norm_lin b 0 20)"
proof -
  have "0 \<le> 0.6 * norm_lin a 0 10" using norm_lin_nonneg by (intro mult_nonneg_nonneg) auto
  moreover have "0 \<le> 0.4 * norm_lin b 0 20" using norm_lin_nonneg by (intro mult_nonneg_nonneg) auto
  ultimately have "0 \<le> 0.6 * norm_lin a 0 10 + 0.4 * norm_lin b 0 20" by (rule add_nonneg_nonneg)
  then show ?thesis by (intro mult_nonneg_nonneg) auto
qed

lemma expected_points_delta_strength_mono:
  "s1 \<le> s2 \<Longrightarrow> expected_points_delta p s1 m \<le> expected_points_delta p s2 m"
proof -
  assume le: "s1 \<le> s2"
  define k where "k = 6 * (0.6 * norm_lin (float_or_zero (form p)) 0 10
                          + 0.4 * norm_lin (float_or_zero (ict_index p)) 0 20)
                        * sigmoid ((m - 120) / 60)"
  have k0: "0 \<le> k" unfolding k_def using mix_nonneg sigmoid_nonneg by (rule mult_nonneg_nonneg)
  have "real_of_int s1 \<le> real_of_int s2" using le by simp
  then have n: "norm_lin (real_of_int s1) 5 1 \<le> norm_lin (real_of_int s2) 5 1"
    by (rule norm_lin_mono)
  have e: "expected_points_delta p s m = k * norm_lin (real_of_int s) 5 1" for s
    unfolding expected_points_delta_def Let_def k_def by (rule refl)
  show ?thesis unfolding e using n k0 by (rule mult_left_mono)
qed

lemma opponent_multiplier_ends: "norm_lin 5 5 1 = 1 \<and> norm_lin 1 5 1 = 0"
  by (simp add: norm_lin_def Let_def)

text \<open>
  C4. With the other inputs fixed, \<open>expected_points_delta\<close> is monotonically
  non-decreasing in the parsed \<open>form\<close> value and in the parsed \<open>ict_index\<close> value; for
  fixed minutes a higher opponent strength number never gives a lower EP\<Delta> than a lower
  one, and the opponent multiplier is 1.0 at strength 5 and 0.0 at strength 1.
\<close>

theorem expected_points_delta_monotone:
  "(f1 \<le> f2 \<longrightarrow> expected_points_delta (p\<lparr>form := Num f1\<rparr>) s m
                   \<le> expected_points_delta (p\<lparr>form := Num f2\<rparr>) s m)
   \<and> (i1 \<le> i2 \<longrightarrow> expected_points_delta (p\<lparr>ict_index := Num i1\<rparr>) s m
                     \<le> expected_points_delta (p\<lparr>ict_index := Num i2\<rparr>) s m)
   \<and> (s1 \<le> s2 \<longrightarrow> expected_points_delta p s1 m \<le> expected_points_delta p s2 m)
   \<and> norm_lin (real_of_int 5) 5 1 = 1 \<and> norm_lin (real_of_int 1) 5 1 = 0"
proof (intro conjI impI)
  show "norm_lin (real_of_int 5) 5 1 = 1" using opponent_multiplier_ends by simp
  show "norm_lin (real_of_int 1) 5 1 = 0" using opponent_multiplier_ends by simp
qed (rule expected_points_delta_form_mono expected_points_delta_ict_mono
       expected_points_delta_strength_mono, assumption)+

theorem expected_points_delta_monotone_witness:
  "(2.7::real) \<le> 3.1 \<and> (4::real) \<le> 9 \<and> (2::int) \<le> 4
   \<and> expected_points_delta (empty_element\<lparr>form := Num 2.7\<rparr>) 3 180
        \<le> expected_points_delta (empty_element\<lparr>form := Num 3.1\<rparr>) 3 180
   \<and> expected_points_delta (empty_element\<lparr>ict_index := Num 4\<rparr>) 3 180
        \<le> expected_points_delta (empty_element\<lparr>ict_index := Num 9\<rparr>) 3 180
   \<and> expected_points_delta empty_element 2 180 \<le> expected_points_delta empty_element 4 180"
proof -
  have a: "(2.7::real) \<le> 3.1" by simp
  have b: "(4::real) \<le> 9" by simp
  have c: "(2::int) \<le> 4" by simp
  show ?thesis
    using a b c expected_points_delta_monotone [of "2.7" "3.1" empty_element 3 180 4 9 2 4]
    by blast
qed









section \<open>Captain recommendation\<close>










section \<open>Squad selector\<close>

lemma by_pos_ids_set:
  "set (map fst (by_pos ep P p)) = {i \<in> fst ` set ep. pos_or_mid P i = p}"
  by (auto simp add: by_pos_def sort_desc_def)

lemma distinct_map_sort_key:
  "distinct (map g xs) \<Longrightarrow> distinct (map g (sort_key f xs))"
  by (simp add: distinct_map)

lemma by_pos_ids_distinct:
  "distinct (map fst ep) \<Longrightarrow> distinct (map fst (by_pos ep P p))"
  unfolding by_pos_def sort_desc_def
  by (intro distinct_map_sort_key) (simp add: distinct_map_filter)

lemma by_pos_length:
  "length (by_pos ep P p) = length (filter (\<lambda>i. pos_or_mid P i = p) (map fst ep))"
  by (simp add: by_pos_def sort_desc_def filter_map comp_def)

lemma count_pos_partition:
  "count_pos P ''GK'' xs + count_pos P ''DEF'' xs + count_pos P ''MID'' xs + count_pos P ''FWD'' xs
     + length (filter (\<lambda>i. P i \<notin> {Some ''GK'', Some ''DEF'', Some ''MID'', Some ''FWD''}) xs)
   = length xs"
  by (induction xs) (auto simp add: count_pos_def)

lemma valid_squad_positions:
  assumes "valid_squad ep P" "i \<in> fst ` set ep"
  shows "P i \<in> {Some ''GK'', Some ''DEF'', Some ''MID'', Some ''FWD''}"
proof -
  have "length (filter (\<lambda>i. P i \<notin> {Some ''GK'', Some ''DEF'', Some ''MID'', Some ''FWD''}) (map fst ep)) = 0"
    using count_pos_partition[of P "map fst ep"] assms(1) by (simp add: valid_squad_def)
  then have "filter (\<lambda>i. P i \<notin> {Some ''GK'', Some ''DEF'', Some ''MID'', Some ''FWD''}) (map fst ep) = []"
    by (simp only: length_0_conv)
  then have "\<forall>x \<in> set (map fst ep). \<not> P x \<notin> {Some ''GK'', Some ''DEF'', Some ''MID'', Some ''FWD''}"
    unfolding filter_empty_conv .
  then show ?thesis using assms(2) by auto
qed

lemma valid_squad_pos_or_mid:
  assumes "valid_squad ep P" "i \<in> fst ` set ep"
  shows "(pos_or_mid P i = p) = (P i = Some p)"
  using valid_squad_positions[OF assms] by (auto simp add: pos_or_mid_def)

lemma valid_squad_by_pos_length:
  assumes "valid_squad ep P"
  shows "length (by_pos ep P p) = count_pos P p (map fst ep)"
proof -
  have "filter (\<lambda>i. pos_or_mid P i = p) (map fst ep) = filter (\<lambda>i. P i = Some p) (map fst ep)"
    by (rule filter_cong[OF refl]) (use valid_squad_pos_or_mid[OF assms] in auto)
  then show ?thesis by (simp add: by_pos_length count_pos_def)
qed

lemma by_pos_ids_pos:
  assumes "valid_squad ep P" "i \<in> set (map fst (by_pos ep P p))"
  shows "P i = Some p"
proof -
  have "i \<in> fst ` set ep" "pos_or_mid P i = p" using assms(2) unfolding by_pos_ids_set by auto
  then show ?thesis using valid_squad_pos_or_mid[OF assms(1)] by blast
qed

lemma filter_not_in_take:
  "distinct xs \<Longrightarrow> filter (\<lambda>x. x \<notin> set (take n xs)) xs = drop n xs"
proof -
  assume d: "distinct xs"
  have "distinct (take n xs @ drop n xs)" using d by simp
  then have dis: "set (take n xs) \<inter> set (drop n xs) = {}" by (simp only: distinct_append)
  have "filter (\<lambda>x. x \<notin> set (take n xs)) xs
      = filter (\<lambda>x. x \<notin> set (take n xs)) (take n xs) @ filter (\<lambda>x. x \<notin> set (take n xs)) (drop n xs)"
    by (metis append_take_drop_id filter_append)
  moreover have "filter (\<lambda>x. x \<notin> set (take n xs)) (take n xs) = []" by (simp add: filter_empty_conv)
  moreover have "filter (\<lambda>x. x \<notin> set (take n xs)) (drop n xs) = drop n xs"
    using dis by (intro filter_True) auto
  ultimately show ?thesis by simp
qed

lemma count_pos_append: "count_pos P p (xs @ ys) = count_pos P p xs + count_pos P p ys"
  by (simp add: count_pos_def)

lemma count_pos_all: "(\<forall>i \<in> set xs. P i = Some p) \<Longrightarrow> count_pos P p xs = length xs"
  by (simp add: count_pos_def)

lemma count_pos_none: "(\<forall>i \<in> set xs. P i \<noteq> Some p) \<Longrightarrow> count_pos P p xs = 0"
  by (simp add: count_pos_def)

lemma count_pos_take_le: "count_pos P p (take n xs) \<le> count_pos P p xs"
proof -
  have "count_pos P p xs = count_pos P p (take n xs) + count_pos P p (drop n xs)"
    using count_pos_append[of P p "take n xs" "drop n xs"] by simp
  then show ?thesis by simp
qed

lemma count_pos_sort_key:
  "count_pos P p (map fst (sort_key f xs)) = count_pos P p (map fst xs)"
  by (simp add: count_pos_def filter_map comp_def filter_sort)

lemma fill_rest_unblocked:
  "(\<forall>c \<in> set cs. \<exists>pos. P (fst c) = Some pos) \<Longrightarrow>
   (\<forall>pos. cnt pos + count_pos P pos (map fst cs) \<le> MAX_BY_POS pos) \<Longrightarrow>
   \<exists>cnt'. fill_rest P cs (sel, cnt) = Inr (sel @ take (11 - length sel) (map fst cs), cnt')"
proof (induction cs arbitrary: sel cnt)
  case Nil
  then show ?case by simp
next
  case (Cons c cs)
  show ?case
  proof (cases "length sel \<ge> 11")
    case True
    then show ?thesis by simp
  next
    case False
    obtain pos where pos: "P (fst c) = Some pos" using Cons.prems(1) by auto
    have bound: "cnt pos + count_pos P pos (map fst (c # cs)) \<le> MAX_BY_POS pos"
      using Cons.prems(2) by blast
    have cpos: "count_pos P pos (map fst (c # cs)) = 1 + count_pos P pos (map fst cs)"
      using pos by (simp add: count_pos_def)
    have lt: "cnt pos < MAX_BY_POS pos" using bound cpos by simp
    have a: "\<forall>c \<in> set cs. \<exists>pos. P (fst c) = Some pos" using Cons.prems(1) by simp
    have b: "\<forall>q. (cnt(pos := cnt pos + 1)) q + count_pos P q (map fst cs) \<le> MAX_BY_POS q"
    proof
      fix q
      show "(cnt(pos := cnt pos + 1)) q + count_pos P q (map fst cs) \<le> MAX_BY_POS q"
      proof (cases "q = pos")
        case True
        then show ?thesis using bound cpos by simp
      next
        case False
        have "count_pos P q (map fst (c # cs)) = count_pos P q (map fst cs)"
          using pos False by (simp add: count_pos_def)
        then show ?thesis using Cons.prems(2) False by (metis fun_upd_other)
      qed
    qed
    obtain cnt' where r: "fill_rest P cs (sel @ [fst c], cnt(pos := cnt pos + 1))
        = Inr ((sel @ [fst c]) @ take (11 - length (sel @ [fst c])) (map fst cs), cnt')"
      using Cons.IH[OF a b] by blast
    have t: "take (11 - length sel) (map fst (c # cs))
           = fst c # take (11 - length (sel @ [fst c])) (map fst cs)"
    proof -
      have e: "11 - length sel = Suc (10 - length sel)" using False by simp
      have "take (Suc (10 - length sel)) (map fst (c # cs))
           = fst c # take (10 - length sel) (map fst cs)" by simp
      then show ?thesis unfolding e by simp
    qed
    have "fill_rest P (c # cs) (sel, cnt) = fill_rest P cs (sel @ [fst c], cnt(pos := cnt pos + 1))"
      using False pos lt by simp
    then show ?thesis using r t by simp
  qed
qed


lemma count_pos_homogeneous:
  "(\<forall>x \<in> set X. P x = Some q) \<Longrightarrow> count_pos P p X = (if p = q then length X else 0)"
  by (induction X) (auto simp add: count_pos_def)

lemma filter_all_kept: "(\<forall>x \<in> set X. x \<notin> S) \<Longrightarrow> filter (\<lambda>pid. pid \<notin> S) X = X"
  by (rule filter_True) simp

lemma fill_min_unfold:
  "fill_min ep P (sel, cnt) pos =
     (sel @ take (MIN_BY_POS pos) (filter (\<lambda>pid. pid \<notin> set sel) (map fst (by_pos ep P pos))),
      cnt(pos := cnt pos + min (length (filter (\<lambda>pid. pid \<notin> set sel) (map fst (by_pos ep P pos))))
                              (MIN_BY_POS pos)))"
  by (simp add: fill_min_def Let_def)

lemma MIN_BY_POS_values:
  "MIN_BY_POS ''DEF'' = 3" "MIN_BY_POS ''MID'' = 2" "MIN_BY_POS ''FWD'' = 1"
  by (simp_all add: MIN_BY_POS_def)

lemma MAX_BY_POS_values:
  "MAX_BY_POS ''GK'' = 1" "MAX_BY_POS ''DEF'' = 5" "MAX_BY_POS ''MID'' = 5" "MAX_BY_POS ''FWD'' = 3"
  by (simp_all add: MAX_BY_POS_def)

text \<open>The state after steps A and B on a valid squad.\<close>

lemma xi_minima_valid:
  assumes v: "valid_squad ep P"
  shows "\<exists>g cnt. xi_minima ep P =
           (g # take 3 (map fst (by_pos ep P ''DEF'')) @ take 2 (map fst (by_pos ep P ''MID''))
              @ take 1 (map fst (by_pos ep P ''FWD'')), cnt)
         \<and> P g = Some ''GK'' \<and> g \<in> fst ` set ep
         \<and> cnt ''GK'' = 1 \<and> cnt ''DEF'' = 3 \<and> cnt ''MID'' = 2 \<and> cnt ''FWD'' = 1
         \<and> (\<forall>p. p \<notin> {''GK'', ''DEF'', ''MID'', ''FWD''} \<longrightarrow> cnt p = 0)"
proof -
  define D where "D = map fst (by_pos ep P ''DEF'')"
  define M where "M = map fst (by_pos ep P ''MID'')"
  define F where "F = map fst (by_pos ep P ''FWD'')"
  have lenG: "length (by_pos ep P ''GK'') = 2"
    using v by (simp add: valid_squad_by_pos_length valid_squad_def)
  have lenD: "length D = 5" using v by (simp add: D_def valid_squad_by_pos_length valid_squad_def)
  have lenM: "length M = 5" using v by (simp add: M_def valid_squad_by_pos_length valid_squad_def)
  have lenF: "length F = 3" using v by (simp add: F_def valid_squad_by_pos_length valid_squad_def)
  have pD: "\<forall>x \<in> set D. P x = Some ''DEF''"
    using by_pos_ids_pos[OF v] unfolding D_def by blast
  have pM: "\<forall>x \<in> set M. P x = Some ''MID''"
    using by_pos_ids_pos[OF v] unfolding M_def by blast
  have pF: "\<forall>x \<in> set F. P x = Some ''FWD''"
    using by_pos_ids_pos[OF v] unfolding F_def by blast
  obtain gp gs where gk: "by_pos ep P ''GK'' = gp # gs"
    using lenG by (cases "by_pos ep P ''GK''") auto
  define g where "g = fst gp"
  have "g \<in> set (map fst (by_pos ep P ''GK''))" by (simp add: gk g_def)
  then have pg: "P g = Some ''GK''" and gin: "g \<in> fst ` set ep"
    using by_pos_ids_pos[OF v] by_pos_ids_set[of ep P "''GK''"] by auto
  define c0 :: "string \<Rightarrow> nat" where "c0 = (\<lambda>_. 0)(''GK'' := 1)"
  have A: "xi_goalkeeper ep P = ([g], c0)"
    by (simp add: xi_goalkeeper_def gk g_def c0_def)
  have poolD: "filter (\<lambda>pid. pid \<notin> set [g]) D = D"
    by (rule filter_all_kept) (use pD pg in auto)
  define c1 where "c1 = c0(''DEF'' := c0 ''DEF'' + min (length D) 3)"
  have B1: "fill_min ep P ([g], c0) ''DEF'' = ([g] @ take 3 D, c1)"
    unfolding fill_min_unfold D_def[symmetric] poolD MIN_BY_POS_values c1_def by (rule refl)
  have poolM: "filter (\<lambda>pid. pid \<notin> set ([g] @ take 3 D)) M = M"
    by (rule filter_all_kept) (use pD pM pg in \<open>auto dest!: in_set_takeD\<close>)
  define c2 where "c2 = c1(''MID'' := c1 ''MID'' + min (length M) 2)"
  have B2: "fill_min ep P ([g] @ take 3 D, c1) ''MID'' = (([g] @ take 3 D) @ take 2 M, c2)"
    unfolding fill_min_unfold M_def[symmetric] poolM MIN_BY_POS_values c2_def by (rule refl)
  have poolF: "filter (\<lambda>pid. pid \<notin> set (([g] @ take 3 D) @ take 2 M)) F = F"
    by (rule filter_all_kept) (use pD pM pF pg in \<open>auto dest!: in_set_takeD\<close>)
  define c3 where "c3 = c2(''FWD'' := c2 ''FWD'' + min (length F) 1)"
  have B3: "fill_min ep P (([g] @ take 3 D) @ take 2 M, c2) ''FWD''
          = ((([g] @ take 3 D) @ take 2 M) @ take 1 F, c3)"
    unfolding fill_min_unfold F_def[symmetric] poolF MIN_BY_POS_values c3_def by (rule refl)
  have "xi_minima ep P = ((([g] @ take 3 D) @ take 2 M) @ take 1 F, c3)"
    unfolding xi_minima_def A by (simp only: foldl.simps B1 B2 B3)
  then have E: "xi_minima ep P = (g # take 3 D @ take 2 M @ take 1 F, c3)" by simp
  have c: "c3 ''GK'' = 1" "c3 ''DEF'' = 3" "c3 ''MID'' = 2" "c3 ''FWD'' = 1"
    by (simp_all add: c3_def c2_def c1_def c0_def lenD lenM lenF)
  have z: "\<forall>p. p \<notin> {''GK'', ''DEF'', ''MID'', ''FWD''} \<longrightarrow> c3 p = 0"
    by (simp add: c3_def c2_def c1_def c0_def)
  show ?thesis using E pg gin c z unfolding D_def M_def F_def by blast
qed

lemma map_fst_filter_ids:
  "map fst (filter (\<lambda>x. fst x \<notin> S) ys) = filter (\<lambda>pid. pid \<notin> S) (map fst ys)"
  by (simp add: filter_map comp_def)

lemma xi_candidates_ids:
  "\<exists>pre. xi_candidates ep P sel = sort_key (\<lambda>x. - snd x) pre
     \<and> map fst pre = filter (\<lambda>pid. pid \<notin> set sel) (map fst (by_pos ep P ''DEF''))
                    @ filter (\<lambda>pid. pid \<notin> set sel) (map fst (by_pos ep P ''MID''))
                    @ filter (\<lambda>pid. pid \<notin> set sel) (map fst (by_pos ep P ''FWD''))"
proof -
  define pre where "pre = concat (map (\<lambda>pos. filter (\<lambda>x. fst x \<notin> set sel) (by_pos ep P pos))
                                      [''DEF'', ''MID'', ''FWD''])"
  have a: "xi_candidates ep P sel = sort_key (\<lambda>x. - snd x) pre"
    unfolding xi_candidates_def sort_desc_def pre_def by (rule refl)
  have "pre = filter (\<lambda>x. fst x \<notin> set sel) (by_pos ep P ''DEF'')
            @ filter (\<lambda>x. fst x \<notin> set sel) (by_pos ep P ''MID'')
            @ filter (\<lambda>x. fst x \<notin> set sel) (by_pos ep P ''FWD'')"
    unfolding pre_def by simp
  then have b: "map fst pre = filter (\<lambda>pid. pid \<notin> set sel) (map fst (by_pos ep P ''DEF''))
                    @ filter (\<lambda>pid. pid \<notin> set sel) (map fst (by_pos ep P ''MID''))
                    @ filter (\<lambda>pid. pid \<notin> set sel) (map fst (by_pos ep P ''FWD''))"
    by (simp only: map_append map_fst_filter_ids)
  show ?thesis using a b by blast
qed

text \<open>
  C2. For every valid 15-player squad (an EP\<Delta> dict and a positions map with 2 GK, 5 DEF,
  5 MID and 3 FWD) \<open>choose_starting_xi\<close> returns, without raising, a starting list of
  exactly 11 distinct player ids of the squad with exactly one goalkeeper, between 3 and 5
  defenders, between 2 and 5 midfielders and between 1 and 3 forwards.
\<close>

theorem choose_starting_xi_legal:
  "valid_squad ep P \<Longrightarrow>
   \<exists>start bench. choose_starting_xi ep P = Inr (start, bench)
     \<and> length start = 11 \<and> distinct start \<and> set start \<subseteq> fst ` set ep
     \<and> count_pos P ''GK'' start = 1
     \<and> 3 \<le> count_pos P ''DEF'' start \<and> count_pos P ''DEF'' start \<le> 5
     \<and> 2 \<le> count_pos P ''MID'' start \<and> count_pos P ''MID'' start \<le> 5
     \<and> 1 \<le> count_pos P ''FWD'' start \<and> count_pos P ''FWD'' start \<le> 3"
proof -
  assume v: "valid_squad ep P"
  define D where "D = map fst (by_pos ep P ''DEF'')"
  define M where "M = map fst (by_pos ep P ''MID'')"
  define F where "F = map fst (by_pos ep P ''FWD'')"
  have dk: "distinct (map fst ep)" using v by (simp add: valid_squad_def)
  have lenD: "length D = 5" using v by (simp add: D_def valid_squad_by_pos_length valid_squad_def)
  have lenM: "length M = 5" using v by (simp add: M_def valid_squad_by_pos_length valid_squad_def)
  have lenF: "length F = 3" using v by (simp add: F_def valid_squad_by_pos_length valid_squad_def)
  have dD: "distinct D" unfolding D_def using dk by (rule by_pos_ids_distinct)
  have dM: "distinct M" unfolding M_def using dk by (rule by_pos_ids_distinct)
  have dF: "distinct F" unfolding F_def using dk by (rule by_pos_ids_distinct)
  have pD: "\<forall>x \<in> set D. P x = Some ''DEF''" using by_pos_ids_pos[OF v] unfolding D_def by blast
  have pM: "\<forall>x \<in> set M. P x = Some ''MID''" using by_pos_ids_pos[OF v] unfolding M_def by blast
  have pF: "\<forall>x \<in> set F. P x = Some ''FWD''" using by_pos_ids_pos[OF v] unfolding F_def by blast
  have kD: "set D \<subseteq> fst ` set ep" unfolding D_def by_pos_ids_set by blast
  have kM: "set M \<subseteq> fst ` set ep" unfolding M_def by_pos_ids_set by blast
  have kF: "set F \<subseteq> fst ` set ep" unfolding F_def by_pos_ids_set by blast
  obtain g cnt where big:
    "xi_minima ep P = (g # take 3 D @ take 2 M @ take 1 F, cnt)
     \<and> P g = Some ''GK'' \<and> g \<in> fst ` set ep
     \<and> cnt ''GK'' = 1 \<and> cnt ''DEF'' = 3 \<and> cnt ''MID'' = 2 \<and> cnt ''FWD'' = 1
     \<and> (\<forall>p. p \<notin> {''GK'', ''DEF'', ''MID'', ''FWD''} \<longrightarrow> cnt p = 0)"
    using xi_minima_valid[OF v, folded D_def M_def F_def] by (elim exE) (rule that)
  have st1: "xi_minima ep P = (g # take 3 D @ take 2 M @ take 1 F, cnt)"
    using big by (rule conjunct1)
  have pg: "P g = Some ''GK''" using big by (elim conjE)
  have gin: "g \<in> fst ` set ep" using big by (elim conjE)
  have c1: "cnt ''GK'' = 1" using big by (elim conjE)
  have c2: "cnt ''DEF'' = 3" using big by (elim conjE)
  have c3: "cnt ''MID'' = 2" using big by (elim conjE)
  have c4: "cnt ''FWD'' = 1" using big by (elim conjE)
  note c = c1 c2 c3 c4
  have z: "\<forall>p. p \<notin> {''GK'', ''DEF'', ''MID'', ''FWD''} \<longrightarrow> cnt p = 0"
    using big by (elim conjE)
  define sel where "sel = g # take 3 D @ take 2 M @ take 1 F"
  have tD: "\<forall>x \<in> set (take 3 D). P x = Some ''DEF''" using pD by (auto dest: in_set_takeD)
  have tM: "\<forall>x \<in> set (take 2 M). P x = Some ''MID''" using pM by (auto dest: in_set_takeD)
  have tF: "\<forall>x \<in> set (take 1 F). P x = Some ''FWD''" using pF by (auto dest: in_set_takeD)
  have rD: "\<forall>x \<in> set (drop 3 D). P x = Some ''DEF''" using pD by (auto dest: in_set_dropD)
  have rM: "\<forall>x \<in> set (drop 2 M). P x = Some ''MID''" using pM by (auto dest: in_set_dropD)
  have rF: "\<forall>x \<in> set (drop 1 F). P x = Some ''FWD''" using pF by (auto dest: in_set_dropD)
  have lensel: "length sel = 7" by (simp add: sel_def lenD lenM lenF)
  have dsel: "distinct sel"
    unfolding sel_def using dD dM dF pg tD tM tF by (auto simp add: distinct_take)
  have fD: "filter (\<lambda>pid. pid \<notin> set sel) D = drop 3 D"
  proof -
    have "filter (\<lambda>pid. pid \<notin> set sel) D = filter (\<lambda>pid. pid \<notin> set (take 3 D)) D"
      by (rule filter_cong[OF refl]) (use pD pg tM tF in \<open>auto simp add: sel_def\<close>)
    then show ?thesis using filter_not_in_take[OF dD] by simp
  qed
  have fM: "filter (\<lambda>pid. pid \<notin> set sel) M = drop 2 M"
  proof -
    have "filter (\<lambda>pid. pid \<notin> set sel) M = filter (\<lambda>pid. pid \<notin> set (take 2 M)) M"
      by (rule filter_cong[OF refl]) (use pM pg tD tF in \<open>auto simp add: sel_def\<close>)
    then show ?thesis using filter_not_in_take[OF dM] by simp
  qed
  have fF: "filter (\<lambda>pid. pid \<notin> set sel) F = drop 1 F"
  proof -
    have "filter (\<lambda>pid. pid \<notin> set sel) F = filter (\<lambda>pid. pid \<notin> set (take 1 F)) F"
      by (rule filter_cong[OF refl]) (use pF pg tD tM in \<open>auto simp add: sel_def\<close>)
    then show ?thesis using filter_not_in_take[OF dF] by simp
  qed
  define R where "R = drop 3 D @ drop 2 M @ drop 1 F"
  obtain pre where cs: "xi_candidates ep P sel = sort_key (\<lambda>x. - snd x) pre"
    and pre: "map fst pre = R"
    using xi_candidates_ids[of ep P sel] unfolding D_def[symmetric] M_def[symmetric]
      F_def[symmetric] fD fM fF R_def by blast
  define ids where "ids = map fst (xi_candidates ep P sel)"
  have lenids: "length ids = 7"
  proof -
    have "length ids = length R" unfolding ids_def cs pre[symmetric] by simp
    then show ?thesis by (simp add: R_def lenD lenM lenF)
  qed
  have setids: "set ids = set R" unfolding ids_def cs pre[symmetric] by simp
  have cntids: "count_pos P p ids = count_pos P p R" for p
    unfolding ids_def cs pre[symmetric] by (rule count_pos_sort_key)
  have dR: "distinct R"
    unfolding R_def using dD dM dF rD rM rF by (auto simp add: distinct_drop)
  have dids: "distinct ids"
    unfolding ids_def cs using dR unfolding pre[symmetric] by (rule distinct_map_sort_key)
  have cR: "count_pos P p R = (if p = ''DEF'' then 2 else 0) + (if p = ''MID'' then 3 else 0)
                             + (if p = ''FWD'' then 2 else 0)" for p
    unfolding R_def count_pos_append
      count_pos_homogeneous[OF rD] count_pos_homogeneous[OF rM] count_pos_homogeneous[OF rF]
    by (simp add: lenD lenM lenF)
  have csel: "count_pos P p sel = (if p = ''GK'' then 1 else 0) + (if p = ''DEF'' then 3 else 0)
                  + (if p = ''MID'' then 2 else 0) + (if p = ''FWD'' then 1 else 0)" for p
  proof -
    have "count_pos P p sel = count_pos P p [g] + count_pos P p (take 3 D)
            + count_pos P p (take 2 M) + count_pos P p (take 1 F)"
      unfolding sel_def by (simp add: count_pos_def)
    moreover have "count_pos P p [g] = (if p = ''GK'' then 1 else 0)"
      using pg by (auto simp add: count_pos_def)
    ultimately show ?thesis
      unfolding count_pos_homogeneous[OF tD] count_pos_homogeneous[OF tM]
        count_pos_homogeneous[OF tF]
      by (simp add: lenD lenM lenF)
  qed
  have defined: "\<forall>c \<in> set (xi_candidates ep P sel). \<exists>pos. P (fst c) = Some pos"
  proof
    fix c assume "c \<in> set (xi_candidates ep P sel)"
    then have "fst c \<in> set R" using setids unfolding ids_def by auto
    then show "\<exists>pos. P (fst c) = Some pos" unfolding R_def using rD rM rF by auto
  qed
  have room: "\<forall>pos. cnt pos + count_pos P pos (map fst (xi_candidates ep P sel)) \<le> MAX_BY_POS pos"
  proof
    fix pos
    have e: "count_pos P pos (map fst (xi_candidates ep P sel)) = count_pos P pos R"
      using cntids[of pos] unfolding ids_def .
    show "cnt pos + count_pos P pos (map fst (xi_candidates ep P sel)) \<le> MAX_BY_POS pos"
    proof (cases "pos \<in> {''GK'', ''DEF'', ''MID'', ''FWD''}")
      case True
      then show ?thesis unfolding e cR using c MAX_BY_POS_values by auto
    next
      case False
      then have "cnt pos = 0" using z by blast
      then show ?thesis unfolding e cR using False by simp
    qed
  qed
  obtain cnt' where fr: "fill_rest P (xi_candidates ep P sel) (sel, cnt)
       = Inr (sel @ take (11 - length sel) ids, cnt')"
    using fill_rest_unblocked[OF defined room, of sel] unfolding ids_def by blast
  define start where "start = sel @ take 4 ids"
  have fr': "fill_rest P (xi_candidates ep P sel) (sel, cnt) = Inr (start, cnt')"
    using fr by (simp add: lensel start_def)
  have res: "choose_starting_xi ep P = Inr (start, bench_order ep P start)"
    unfolding choose_starting_xi_def st1 sel_def[symmetric] by (simp add: Let_def fr')
  have len: "length start = 11" by (simp add: start_def lensel lenids)
  have sub_ids: "set (take 4 ids) \<subseteq> set R" using setids by (auto dest: in_set_takeD)
  have disj: "set sel \<inter> set R = {}"
  proof -
    have a: "set (take 3 D) \<inter> set (drop 3 D) = {}" using dD by (metis append_take_drop_id distinct_append)
    have b: "set (take 2 M) \<inter> set (drop 2 M) = {}" using dM by (metis append_take_drop_id distinct_append)
    have c: "set (take 1 F) \<inter> set (drop 1 F) = {}" using dF by (metis append_take_drop_id distinct_append)
    show ?thesis unfolding sel_def R_def using a b c pg tD tM tF rD rM rF by auto
  qed
  have dist: "distinct start"
    unfolding start_def using dsel dids disj sub_ids by (auto simp add: distinct_take)
  have keys: "set start \<subseteq> fst ` set ep"
  proof -
    have "set R \<subseteq> fst ` set ep" unfolding R_def using kD kM kF by (auto dest: in_set_dropD)
    moreover have "set sel \<subseteq> fst ` set ep"
      unfolding sel_def using gin kD kM kF by (auto dest: in_set_takeD)
    ultimately show ?thesis unfolding start_def using sub_ids by auto
  qed
  have cstart: "count_pos P p start = count_pos P p sel + count_pos P p (take 4 ids)" for p
    by (simp add: start_def count_pos_append)
  have up: "count_pos P p (take 4 ids) \<le> count_pos P p R" for p
    using count_pos_take_le[of P p 4 ids] cntids[of p] by simp
  have gk: "count_pos P ''GK'' start = 1"
    using up[of "''GK''"] unfolding cstart csel cR by simp
  have df: "3 \<le> count_pos P ''DEF'' start \<and> count_pos P ''DEF'' start \<le> 5"
    using up[of "''DEF''"] unfolding cstart csel cR by simp
  have md: "2 \<le> count_pos P ''MID'' start \<and> count_pos P ''MID'' start \<le> 5"
    using up[of "''MID''"] unfolding cstart csel cR by simp
  have fw: "1 \<le> count_pos P ''FWD'' start \<and> count_pos P ''FWD'' start \<le> 3"
    using up[of "''FWD''"] unfolding cstart csel cR by simp
  show ?thesis using res len dist keys gk df md fw by blast
qed

theorem choose_starting_xi_legal_witness:
  "valid_squad sample_ep sample_positions
   \<and> (\<exists>start bench. choose_starting_xi sample_ep sample_positions = Inr (start, bench)
        \<and> length start = 11 \<and> distinct start
        \<and> count_pos sample_positions ''GK'' start = 1
        \<and> 3 \<le> count_pos sample_positions ''DEF'' start
        \<and> count_pos sample_positions ''FWD'' start \<le> 3)"
proof -
  have h: "valid_squad sample_ep sample_positions"
    by (simp add: valid_squad_def sample_ep_def sample_positions_def count_pos_def)
  show ?thesis using h choose_starting_xi_legal [OF h] by blast
qed

section \<open>The planner on every input and on the sample squad\<close>









lemma squad_element_fields:
  "el_id (squad_element i ty f) = i" "element_type (squad_element i ty f) = Some ty"
  "team (squad_element i ty f) = Some 1" "selected_by_percent (squad_element i ty f) = Num 10"
  by (simp_all add: squad_element_def)

lemma squad_element_epd:
  "0 \<le> f \<Longrightarrow> f \<le> 10 \<Longrightarrow> expected_points_delta (squad_element i ty f) 5 120 = 0.18 * f"
  by (simp add: expected_points_delta_def squad_element_def float_or_zero_def norm_lin_def
      sigmoid_def Let_def)

lemma squad_element_aggregate:
  "0 \<le> f \<Longrightarrow> f \<le> 10 \<Longrightarrow>
   aggregate_epdelta_for_fixtures (squad_element i ty f)
     [\<lparr>was_home = True, opponent_team = Some 2, opponent_strength = Some 5\<rparr>] = 0.18 * f"
  using squad_element_epd[of f i ty]
  by (simp add: aggregate_epdelta_for_fixtures_def nz_def int_or_def Let_def)
     (simp add: squad_element_def)

lemma sample_fixture_rows:
  "fixtures_by_team sample_teams sample_fixtures 1 =
     [\<lparr>was_home = True, opponent_team = Some 2, opponent_strength = Some 5\<rparr>]"
  by (simp add: fixtures_by_team_def sample_fixtures_def sample_teams_def team_strength_def
      team_idx_def int_or_def Let_def)

lemma sample_get_elem:
  "map (get_elem sample_elements) [1, 3, 4, 5, 6, 8, 9, 10, 11, 13, 14, 2, 7, 12, 15] =
     [squad_element 1 1 5, squad_element 3 2 5, squad_element 4 2 5, squad_element 5 2 5,
      squad_element 6 2 5, squad_element 8 3 5, squad_element 9 3 5, squad_element 10 3 5,
      squad_element 11 3 0, squad_element 13 4 5, squad_element 14 4 5, squad_element 2 1 0,
      squad_element 7 2 0, squad_element 12 3 1, squad_element 15 4 0]"
  by (simp add: get_elem_def elem_by_id_def sample_elements_def squad_element_fields)

lemma squad_picks_elements:
  "length ms = 15 \<Longrightarrow>
   map pk_element (squad_picks ms) = [1, 3, 4, 5, 6, 8, 9, 10, 11, 13, 14, 2, 7, 12, 15]"
proof -
  assume l: "length ms = 15"
  have "map pk_element (squad_picks ms)
      = map fst (zip [1, 3, 4, 5, 6, 8, 9, 10, 11, 13, 14, 2, 7, 12, 15] ms)"
    by (simp add: squad_picks_def squad_pick_def comp_def)
  also have "\<dots> = [1, 3, 4, 5, 6, 8, 9, 10, 11, 13, 14, 2, 7, 12, 15]"
    using l by (intro map_fst_zip) simp
  finally show ?thesis .
qed

lemma round2_values: "round2 (9 / 10) = 9 / 10" "round2 0 = 0" "round2 (9 / 50) = 9 / 50"
  by (simp_all add: round2_def round_half_even_def Let_def)

lemma squad_ep:
  assumes "length ms = 15"
  shows "plan_ep_by_player (squad_picks ms) sample_elements sample_teams sample_fixtures = sample_ep"
proof -
  have fs: "first_seen (map pk_element (squad_picks ms))
            = [1, 3, 4, 5, 6, 8, 9, 10, 11, 13, 14, 2, 7, 12, 15]"
    unfolding squad_picks_elements[OF assms] by (simp add: first_seen_def)
  show ?thesis
    unfolding plan_ep_by_player_def fs using sample_get_elem
    by (simp add: Let_def squad_element_fields int_or_def sample_fixture_rows
        squad_element_aggregate round2_values sample_ep_def)
qed

lemma squad_positions:
  assumes "length ms = 15"
  shows "map (plan_positions (squad_picks ms) sample_elements)
           [1, 3, 4, 5, 6, 8, 9, 10, 11, 13, 14, 2, 7, 12, 15]
         = map Some [''GK'', ''DEF'', ''DEF'', ''DEF'', ''DEF'', ''MID'', ''MID'', ''MID'', ''MID'',
                     ''FWD'', ''FWD'', ''GK'', ''DEF'', ''MID'', ''FWD'']"
proof -
  have "pk_element ` set (squad_picks ms) = set (map pk_element (squad_picks ms))" by simp
  then have s: "pk_element ` set (squad_picks ms)
       = {1, 3, 4, 5, 6, 8, 9, 10, 11, 13, 14, 2, 7, 12, 15}"
    unfolding squad_picks_elements[OF assms] by simp
  show ?thesis
    using sample_get_elem
    by (simp add: plan_positions_def s squad_element_fields int_or_def position_code_def)
qed

lemma sample_choose:
  assumes "map P [1, 3, 4, 5, 6, 8, 9, 10, 11, 13, 14, 2, 7, 12, 15]
         = map Some [''GK'', ''DEF'', ''DEF'', ''DEF'', ''DEF'', ''MID'', ''MID'', ''MID'', ''MID'',
                     ''FWD'', ''FWD'', ''GK'', ''DEF'', ''MID'', ''FWD'']"
  shows "choose_starting_xi sample_ep P
         = Inr ([1, 3, 4, 5, 8, 9, 13, 6, 10, 14, 12], [11, 7, 15, 2])"
proof -
  have posf: "P 1 = Some ''GK''" "P 2 = Some ''GK''"
    "P 3 = Some ''DEF''" "P 4 = Some ''DEF''" "P 5 = Some ''DEF''" "P 6 = Some ''DEF''"
    "P 7 = Some ''DEF''"
    "P 8 = Some ''MID''" "P 9 = Some ''MID''" "P 10 = Some ''MID''" "P 11 = Some ''MID''"
    "P 12 = Some ''MID''"
    "P 13 = Some ''FWD''" "P 14 = Some ''FWD''" "P 15 = Some ''FWD''"
    using assms by simp_all
  have bp: "by_pos sample_ep P ''GK'' = [(1, 0.9), (2, 0)]"
    "by_pos sample_ep P ''DEF'' = [(3, 0.9), (4, 0.9), (5, 0.9), (6, 0.9), (7, 0)]"
    "by_pos sample_ep P ''MID'' = [(8, 0.9), (9, 0.9), (10, 0.9), (12, 0.18), (11, 0)]"
    "by_pos sample_ep P ''FWD'' = [(13, 0.9), (14, 0.9), (15, 0)]"
    by (simp_all add: by_pos_def sample_ep_def posf pos_or_mid_def sort_desc_def)
  have A: "xi_goalkeeper sample_ep P = ([1], (\<lambda>_. 0)(''GK'' := 1))"
    by (simp add: xi_goalkeeper_def bp)
  have "\<exists>cnt. xi_minima sample_ep P = ([1, 3, 4, 5, 8, 9, 13], cnt)
          \<and> cnt ''DEF'' = 3 \<and> cnt ''MID'' = 2 \<and> cnt ''FWD'' = 1"
    unfolding xi_minima_def A by (simp add: fill_min_def bp MIN_BY_POS_def Let_def)
  then obtain cnt where B: "xi_minima sample_ep P = ([1, 3, 4, 5, 8, 9, 13], cnt)"
    and c: "cnt ''DEF'' = 3" "cnt ''MID'' = 2" "cnt ''FWD'' = 1" by blast
  have C: "xi_candidates sample_ep P [1, 3, 4, 5, 8, 9, 13]
         = [(6, 0.9), (10, 0.9), (14, 0.9), (12, 0.18), (7, 0), (11, 0), (15, 0)]"
    by (simp add: xi_candidates_def bp sort_desc_def)
  have "\<exists>c'. fill_rest P [(6, 0.9), (10, 0.9), (14, 0.9), (12, 0.18), (7, 0), (11, 0), (15, 0)]
               ([1, 3, 4, 5, 8, 9, 13], cnt)
             = Inr ([1, 3, 4, 5, 8, 9, 13, 6, 10, 14, 12], c')"
    by (simp add: posf c MAX_BY_POS_def)
  then obtain c' where D: "fill_rest P
         [(6, 0.9), (10, 0.9), (14, 0.9), (12, 0.18), (7, 0), (11, 0), (15, 0)]
         ([1, 3, 4, 5, 8, 9, 13], cnt) = Inr ([1, 3, 4, 5, 8, 9, 13, 6, 10, 14, 12], c')"
    by blast
  have E: "bench_order sample_ep P [1, 3, 4, 5, 8, 9, 13, 6, 10, 14, 12] = [11, 7, 15, 2]"
    by (simp add: bench_order_def sample_ep_def posf ep_get_def Let_def)
  show ?thesis
    unfolding choose_starting_xi_def B Let_def fst_conv C D sum.case E by (rule refl)
qed

lemma sample_ownership:
  "map (ownership_index sample_elements) [3, 4, 5, 8, 9, 13, 6, 10, 14, 12]
   = map Some [10, 10, 10, 10, 10, 10, 10, 10, 10, 10]"
  by (simp add: ownership_index_def sample_elements_def squad_element_def float_or_zero_def)

lemma sample_captain:
  assumes "map P [1, 3, 4, 5, 6, 8, 9, 10, 11, 13, 14, 2, 7, 12, 15]
         = map Some [''GK'', ''DEF'', ''DEF'', ''DEF'', ''DEF'', ''MID'', ''MID'', ''MID'', ''MID'',
                     ''FWD'', ''FWD'', ''GK'', ''DEF'', ''MID'', ''FWD'']"
  shows "recommend_captain_from_ids [1, 3, 4, 5, 8, 9, 13, 6, 10, 14, 12] sample_ep
           (ownership_index sample_elements) P ''safe'' = (3, 4)"
proof -
  have posf: "P 1 = Some ''GK''" "P 2 = Some ''GK''"
    "P 3 = Some ''DEF''" "P 4 = Some ''DEF''" "P 5 = Some ''DEF''" "P 6 = Some ''DEF''"
    "P 7 = Some ''DEF''"
    "P 8 = Some ''MID''" "P 9 = Some ''MID''" "P 10 = Some ''MID''" "P 11 = Some ''MID''"
    "P 12 = Some ''MID''"
    "P 13 = Some ''FWD''" "P 14 = Some ''FWD''" "P 15 = Some ''FWD''"
    using assms by simp_all
  have cc: "captain_candidates [1, 3, 4, 5, 8, 9, 13, 6, 10, 14, 12] P
            = [3, 4, 5, 8, 9, 13, 6, 10, 14, 12]"
    by (simp add: captain_candidates_def posf)
  have sc: "captain_scored [1, 3, 4, 5, 8, 9, 13, 6, 10, 14, 12] sample_ep
              (ownership_index sample_elements) P ''safe''
            = [(3, 0.99, 0.9), (4, 0.99, 0.9), (5, 0.99, 0.9), (8, 0.99, 0.9), (9, 0.99, 0.9),
               (13, 0.99, 0.9), (6, 0.99, 0.9), (10, 0.99, 0.9), (14, 0.99, 0.9),
               (12, 0.198, 0.18)]"
    unfolding captain_scored_def cc using sample_ownership
    by (simp add: adjusted_score_def sample_ep_def ep_get_def Let_def)
  have so: "sort_desc (\<lambda>x. fst (snd x))
              [(3, 0.99, 0.9), (4, 0.99, 0.9), (5, 0.99, 0.9), (8, 0.99, 0.9), (9, 0.99, 0.9),
               (13, 0.99, 0.9), (6, 0.99, 0.9), (10, 0.99, 0.9), (14, 0.99, 0.9),
               (12, 0.198, 0.18)]
            = (3, 0.99, 0.9) # [(4, 0.99, 0.9), (5, 0.99, 0.9), (8, 0.99, 0.9), (9, 0.99, 0.9),
               (13, 0.99, 0.9), (6, 0.99, 0.9), (10, 0.99, 0.9), (14, 0.99, 0.9),
               (12, 0.198, 0.18)]"
    by (simp add: sort_desc_def)
  show ?thesis
    unfolding recommend_captain_from_ids_def sc so list.case by (simp add: Let_def)
qed

lemma sample_current:
  "picked_start sample_picks = [1, 3, 4, 5, 6, 8, 9, 10, 11, 13, 14]"
  "picked_bench sample_picks = [2, 7, 12, 15]"
  "map_option pk_element (find is_captain sample_picks) = Some 8"
  "map_option pk_element (find is_vice_captain sample_picks) = Some 9"
  by (simp_all add: picked_start_def picked_bench_def sample_picks_def squad_picks_def
      squad_pick_def)

lemma sample_repair:
  assumes "map P [1, 3, 4, 5, 6, 8, 9, 10, 11, 13, 14, 2, 7, 12, 15]
         = map Some [''GK'', ''DEF'', ''DEF'', ''DEF'', ''DEF'', ''MID'', ''MID'', ''MID'', ''MID'',
                     ''FWD'', ''FWD'', ''GK'', ''DEF'', ''MID'', ''FWD'']"
  shows "repair_current P sample_ep [1, 3, 4, 5, 6, 8, 9, 10, 11, 13, 14] [2, 7, 12, 15]
         = ([1, 3, 4, 5, 6, 8, 9, 10, 11, 13, 14], [2, 7, 12, 15])"
  using assms by (simp add: repair_current_def Let_def)

lemma sample_formation:
  assumes "map P [1, 3, 4, 5, 6, 8, 9, 10, 11, 13, 14, 2, 7, 12, 15]
         = map Some [''GK'', ''DEF'', ''DEF'', ''DEF'', ''DEF'', ''MID'', ''MID'', ''MID'', ''MID'',
                     ''FWD'', ''FWD'', ''GK'', ''DEF'', ''MID'', ''FWD'']"
  shows "formation_str [1, 3, 4, 5, 6, 8, 9, 10, 11, 13, 14] P = ''4-4-2''"
    and "formation_str [1, 3, 4, 5, 8, 9, 13, 6, 10, 14, 12] P = ''4-4-2''"
  using assms by (simp_all add: formation_str_def count_pos_def str_nat.simps)

lemma sample_pairs: "swap_pairs sample_ep [12] [11] = []"
  by (simp add: swap_pairs_def sample_ep_def ep_get_def sort_desc_def Let_def)

lemma sample_sums:
  "sum_list (map (\<lambda>i. ep_get sample_ep i 0) [1, 3, 4, 5, 6, 8, 9, 10, 11, 13, 14]) = 9"
  "sum_list (map (\<lambda>i. ep_get sample_ep i 0) [1, 3, 4, 5, 8, 9, 13, 6, 10, 14, 12]) = 9.18"
  "sum_list (map (\<lambda>i. ep_get sample_ep i 0) [11, 7, 15, 2]) = 0"
  "ep_get sample_ep 3 0 = 0.9"
  by (simp_all add: sample_ep_def ep_get_def)

lemma sample_plan_result:
  "plan_gameweek sample_picks sample_elements sample_teams sample_fixtures
     (ownership_index sample_elements) ''safe'' = Inr sample_plan"
proof -
  define P where "P = plan_positions sample_picks sample_elements"
  have l: "length [1, 1, 1, 1, 1, 1, 1, 1, 1, 1, 1, 0, 0, 0, 0 :: int] = 15" by simp
  have ep: "plan_ep_by_player sample_picks sample_elements sample_teams sample_fixtures = sample_ep"
    unfolding sample_picks_def using l by (rule squad_ep)
  have pm: "map P [1, 3, 4, 5, 6, 8, 9, 10, 11, 13, 14, 2, 7, 12, 15]
         = map Some [''GK'', ''DEF'', ''DEF'', ''DEF'', ''DEF'', ''MID'', ''MID'', ''MID'', ''MID'',
                     ''FWD'', ''FWD'', ''GK'', ''DEF'', ''MID'', ''FWD'']"
    unfolding P_def sample_picks_def using l by (rule squad_positions)
  have si: "filter (\<lambda>pid. pid \<notin> set [1, 3, 4, 5, 6, 8, 9, 10, 11, 13, 14::int])
              [1, 3, 4, 5, 8, 9, 13, 6, 10, 14, 12] = [12]"
    by simp
  have bo: "filter (\<lambda>pid. pid \<notin> set [1, 3, 4, 5, 8, 9, 13, 6, 10, 14, 12::int])
              [1, 3, 4, 5, 6, 8, 9, 10, 11, 13, 14] = [11]"
    by simp
  have gr: "fst (greedy_swaps P [] ([], {}, {}, [1, 3, 4, 5, 6, 8, 9, 10, 11, 13, 14])) = []"
    by simp
  show ?thesis
    unfolding plan_gameweek_def Let_def ep P_def[symmetric] sample_current
      sample_repair[OF pm] sample_choose[OF pm] sum.case fst_conv snd_conv
      sample_captain[OF pm] si bo sample_pairs gr sample_formation[OF pm] sample_sums
    unfolding evaluate_chips_def sample_sums
    by (simp add: chip_action_def sample_plan_def)
qed

section \<open>Chip recommendation\<close>


lemma swap_actions_all_swaps: "filter is_swap (swap_actions n ps) = swap_actions n ps"
  by (induction n ps rule: swap_actions.induct) simp_all





section \<open>Swap actions and the handler's guardrail\<close>

lemma apply_swaps_finite: "finite S \<Longrightarrow> finite (apply_swaps sws S)"
  unfolding apply_swaps_def by (induction sws arbitrary: S) simp_all

lemma guard_swaps_apply:
  "guard_swaps sws st = Inr st' \<Longrightarrow> fst st' = apply_swaps sws (fst st)"
proof (induction sws arbitrary: st)
  case Nil
  then show ?case by (simp add: apply_swaps_def)
next
  case (Cons sw sws)
  define st1 where "st1 = (insert (in_player sw) (fst st - {out_player sw}),
                           insert (out_player sw) (snd st - {in_player sw}))"
  have "guard_swaps sws st1 = Inr st'"
    using Cons.prems by (simp add: Let_def st1_def split: if_splits)
  then have "fst st' = apply_swaps sws (fst st1)" by (rule Cons.IH)
  then show ?case by (simp add: apply_swaps_def st1_def)
qed

lemma sorted_list_eq_sort:
  "finite A \<Longrightarrow> sorted_list_of_set A = sort xs \<Longrightarrow> A = set xs"
proof -
  assume f: "finite A" and e: "sorted_list_of_set A = sort xs"
  have "set (sorted_list_of_set A) = A" using f by simp
  moreover have "set (sort xs) = set xs" by simp
  ultimately show ?thesis using e by simp
qed

lemma planner_guard_mismatch:
  assumes "apply_swaps (swaps_by_priority (actions p)) (set (current_start p))
             \<noteq> set (optimal_start p)
           \<or> formation_str (optimal_start p) (guard_positions elements p) \<noteq> formation_optimal p"
  shows "\<exists>msg. planner_guard elements p = Inl msg"
proof (cases "guard_swaps (swaps_by_priority (actions p))
                (set (current_start p), set (current_bench p))")
  case (Inl msg)
  then show ?thesis by (simp add: planner_guard_def)
next
  case (Inr st)
  have e: "fst st = apply_swaps (swaps_by_priority (actions p)) (set (current_start p))"
    using guard_swaps_apply[OF Inr] by simp
  have fin: "finite (fst st)" unfolding e by (rule apply_swaps_finite) simp
  show ?thesis
  proof (cases "sorted_list_of_set (fst st) = sort (optimal_start p)")
    case True
    then have "fst st = set (optimal_start p)" using fin by (intro sorted_list_eq_sort)
    then have "formation_str (optimal_start p) (guard_positions elements p) \<noteq> formation_optimal p"
      using assms e by simp
    then show ?thesis using True Inr by (simp add: planner_guard_def)
  next
    case False
    then show ?thesis using Inr by (simp add: planner_guard_def)
  qed
qed

text \<open>
  C3, as amended. \<open>plan_gameweek\<close> returns its plan without any consistency check. The
  request handler \<open>get_gameweek_planner\<close> checks the plan it received: whenever applying
  the swap actions in ascending priority order to the current XI does not reproduce the
  optimal XI, or the formation derived from the optimal XI differs from the plan's
  formation string, the request fails with a planner-validation failure instead of
  returning the plan.
\<close>

theorem planner_guard_rejects_mismatch:
  "plan_gameweek picks elements teams fx (ownership_index elements) mode = Inr p \<Longrightarrow>
   apply_swaps (swaps_by_priority (actions p)) (set (current_start p)) \<noteq> set (optimal_start p)
     \<or> formation_str (optimal_start p) (guard_positions elements p) \<noteq> formation_optimal p \<Longrightarrow>
   \<exists>msg. get_gameweek_planner picks elements teams fx mode = Inl (Planner_validation_failed msg)"
proof -
  assume r: "plan_gameweek picks elements teams fx (ownership_index elements) mode = Inr p"
    and m: "apply_swaps (swaps_by_priority (actions p)) (set (current_start p))
              \<noteq> set (optimal_start p)
            \<or> formation_str (optimal_start p) (guard_positions elements p) \<noteq> formation_optimal p"
  obtain msg where "planner_guard elements p = Inl msg"
    using planner_guard_mismatch[OF m] by blast
  then show ?thesis by (simp add: get_gameweek_planner_def r)
qed

lemma sample_no_swaps: "swaps_by_priority (actions sample_plan) = []"
  by (simp add: swaps_by_priority_def sample_plan_def)

lemma sample_mismatch:
  "apply_swaps (swaps_by_priority (actions sample_plan)) (set (current_start sample_plan))
     \<noteq> set (optimal_start sample_plan)"
proof -
  have a: "(11::int) \<in> set (current_start sample_plan)" by (simp add: sample_plan_def)
  have b: "(11::int) \<notin> set (optimal_start sample_plan)" by (simp add: sample_plan_def)
  have "apply_swaps [] (set (current_start sample_plan)) = set (current_start sample_plan)"
    by (simp add: apply_swaps_def)
  then show ?thesis unfolding sample_no_swaps using a b by metis
qed

theorem planner_guard_rejects_mismatch_witness:
  "plan_gameweek sample_picks sample_elements sample_teams sample_fixtures
     (ownership_index sample_elements) ''safe'' = Inr sample_plan
   \<and> apply_swaps (swaps_by_priority (actions sample_plan)) (set (current_start sample_plan))
        \<noteq> set (optimal_start sample_plan)
   \<and> (\<exists>msg. get_gameweek_planner sample_picks sample_elements sample_teams sample_fixtures ''safe''
               = Inl (Planner_validation_failed msg))"
  using sample_plan_result sample_mismatch
    planner_guard_rejects_mismatch [OF sample_plan_result disjI1, OF sample_mismatch]
  by blast

text \<open>
  C3 as stated fails: on the sample squad \<open>plan_gameweek\<close> returns a plan although
  applying its (zero) swaps to the current XI leaves player 11 in and player 12 out, which
  is not the optimal XI.
\<close>

theorem plan_gameweek_returns_unchecked:
  "plan_gameweek sample_picks sample_elements sample_teams sample_fixtures
     (ownership_index sample_elements) ''safe'' = Inr sample_plan
   \<and> apply_swaps (swaps_by_priority (actions sample_plan)) (set (current_start sample_plan))
        = {1, 3, 4, 5, 6, 8, 9, 10, 11, 13, 14}
   \<and> set (optimal_start sample_plan) = {1, 3, 4, 5, 6, 8, 9, 10, 12, 13, 14}
   \<and> (11::int) \<notin> {1, 3, 4, 5, 6, 8, 9, 10, 12, 13, 14}"
proof -
  have a: "apply_swaps (swaps_by_priority (actions sample_plan)) (set (current_start sample_plan))
        = {1, 3, 4, 5, 6, 8, 9, 10, 11, 13, 14}"
    unfolding sample_no_swaps by (simp add: apply_swaps_def sample_plan_def)
  have b: "set (optimal_start sample_plan) = {1, 3, 4, 5, 6, 8, 9, 10, 12, 13, 14}"
    by (auto simp add: sample_plan_def)
  show ?thesis using sample_plan_result a b by simp
qed

text \<open>
  C1 on the code. On the sample squad the optimal XI has player 12 where the current XI
  has player 11, the gain of that swap is 0.18, below the 0.20 threshold of the pairing,
  so no swap action is emitted and the handler's own guardrail rejects the plan with
  \<open>Swaps do not yield optimal_start\<close>.
\<close>

theorem swaps_stop_short_of_optimal:
  "plan_gameweek sample_picks sample_elements sample_teams sample_fixtures
     (ownership_index sample_elements) ''safe'' = Inr sample_plan
   \<and> filter is_swap (actions sample_plan) = []
   \<and> (12::int) \<in> set (optimal_start sample_plan) \<and> 12 \<notin> set (current_start sample_plan)
   \<and> ep_get (per_player_ep sample_plan) 12 0 - ep_get (per_player_ep sample_plan) 11 0 = 0.18
   \<and> get_gameweek_planner sample_picks sample_elements sample_teams sample_fixtures ''safe''
        = Inl (Planner_validation_failed ''Swaps do not yield optimal_start'')"
proof -
  have g: "guard_swaps (swaps_by_priority (actions sample_plan))
             (set (current_start sample_plan), set (current_bench sample_plan))
           = Inr (set (current_start sample_plan), set (current_bench sample_plan))"
    unfolding sample_no_swaps by simp
  have ne: "sorted_list_of_set (set (current_start sample_plan)) \<noteq> sort (optimal_start sample_plan)"
  proof
    assume "sorted_list_of_set (set (current_start sample_plan)) = sort (optimal_start sample_plan)"
    then have "set (current_start sample_plan) = set (optimal_start sample_plan)"
      by (intro sorted_list_eq_sort) simp
    moreover have "(11::int) \<in> set (current_start sample_plan)" by (simp add: sample_plan_def)
    moreover have "(11::int) \<notin> set (optimal_start sample_plan)" by (simp add: sample_plan_def)
    ultimately show False by metis
  qed
  have pg: "planner_guard sample_elements sample_plan = Inl ''Swaps do not yield optimal_start''"
    unfolding planner_guard_def g using ne by simp
  have h: "get_gameweek_planner sample_picks sample_elements sample_teams sample_fixtures ''safe''
        = Inl (Planner_validation_failed ''Swaps do not yield optimal_start'')"
    unfolding get_gameweek_planner_def sample_plan_result using pg by simp
  have rest: "filter is_swap (actions sample_plan) = []
     \<and> (12::int) \<in> set (optimal_start sample_plan) \<and> 12 \<notin> set (current_start sample_plan)
     \<and> ep_get (per_player_ep sample_plan) 12 0 - ep_get (per_player_ep sample_plan) 11 0 = 0.18"
    by (simp add: sample_plan_def sample_ep_def ep_get_def)
  show ?thesis using sample_plan_result rest h by simp
qed

section \<open>Repair of a second starting goalkeeper\<close>













section \<open>Transfer suggestions and the budget\<close>

lemma transfer_loop_prefix:
  "\<exists>new. snd (snd (transfer_loop elements scored cands allowance outs (tc, bank, sugg)))
           = sugg @ new"
proof (induction outs arbitrary: tc bank sugg)
  case Nil
  then show ?case by simp
next
  case (Cons out_id outs)
  define out_epd where
    "out_epd = (case filter (\<lambda>x. fst x = out_id) scored of [] \<Rightarrow> 0 | x # _ \<Rightarrow> snd x)"
  show ?case
  proof (cases "sort_desc snd (legal_candidates elements cands tc bank allowance out_id out_epd)")
    case Nil
    then have "transfer_loop elements scored cands allowance (out_id # outs) (tc, bank, sugg)
             = transfer_loop elements scored cands allowance outs (tc, bank, sugg)"
      by (simp add: out_epd_def Let_def)
    then show ?thesis using Cons.IH by simp
  next
    case (Cons chosen rest)
    obtain tc' bank' s where step:
      "transfer_loop elements scored cands allowance (out_id # outs) (tc, bank, sugg)
       = transfer_loop elements scored cands allowance outs (tc', bank', sugg @ [s])"
      using Cons by (simp add: out_epd_def Let_def)
    obtain new where "snd (snd (transfer_loop elements scored cands allowance outs
                                   (tc', bank', sugg @ [s]))) = (sugg @ [s]) @ new"
      using Cons.IH by blast
    then show ?thesis unfolding step by simp
  qed
qed

lemma legal_candidate_budget:
  "c \<in> set (legal_candidates elements cands tc bank allowance out_id out_epd) \<Longrightarrow>
   meta_cost elements (fst c) - meta_cost elements out_id \<le> bank + allowance"
  by (auto simp add: legal_candidates_def Let_def)

lemma first_suggestion_budget:
  "snd (snd (transfer_loop elements scored cands allowance outs (tc, bank, []))) = s # rest \<Longrightarrow>
   meta_cost elements (sg_in s) - meta_cost elements (sg_out s) \<le> bank + allowance"
proof (induction outs arbitrary: tc)
  case Nil
  then show ?case by simp
next
  case (Cons out_id outs)
  define out_epd where
    "out_epd = (case filter (\<lambda>x. fst x = out_id) scored of [] \<Rightarrow> 0 | x # _ \<Rightarrow> snd x)"
  define legal where "legal = legal_candidates elements cands tc bank allowance out_id out_epd"
  show ?case
  proof (cases "sort_desc snd legal")
    case Nil
    then have "transfer_loop elements scored cands allowance (out_id # outs) (tc, bank, [])
             = transfer_loop elements scored cands allowance outs (tc, bank, [])"
      by (simp add: out_epd_def legal_def Let_def)
    then show ?thesis using Cons.IH Cons.prems by simp
  next
    case (Cons chosen others)
    define s0 where "s0 = \<lparr>sg_out = out_id, sg_in = fst chosen,
                             epdelta_out = out_epd, epdelta_in = snd chosen\<rparr>"
    obtain tc' bank' where step:
      "transfer_loop elements scored cands allowance (out_id # outs) (tc, bank, [])
       = transfer_loop elements scored cands allowance outs (tc', bank', [] @ [s0])"
      using Cons by (simp add: out_epd_def legal_def s0_def Let_def)
    obtain new where "snd (snd (transfer_loop elements scored cands allowance outs
                                   (tc', bank', [] @ [s0]))) = ([] @ [s0]) @ new"
      using transfer_loop_prefix by blast
    then have "s # rest = s0 # new" using Cons.prems unfolding step by simp
    then have s: "s = s0" by simp
    have "chosen \<in> set (sort_desc snd legal)" unfolding Cons by simp
    then have "chosen \<in> set legal" by (simp add: sort_desc_def)
    then have "meta_cost elements (fst chosen) - meta_cost elements out_id \<le> bank + allowance"
      unfolding legal_def by (rule legal_candidate_budget)
    then show ?thesis by (simp add: s s0_def)
  qed
qed

text \<open>
  C5, as amended. The first suggestion of the returned list pairs an incoming player whose
  cost exceeds the outgoing player's cost by at most \<open>bank + bank_allowance\<close>; with
  \<open>bank = 0\<close> and \<open>bank_allowance = 0\<close> the incoming player of the first suggestion never
  costs more than the outgoing one. Later suggestions are checked against the running
  simulated bank.
\<close>

theorem first_suggestion_within_budget:
  "suggest_transfers pick_rows elements bank bank_allowance = s # rest \<Longrightarrow>
   meta_cost elements (sg_in s) - meta_cost elements (sg_out s) \<le> bank + bank_allowance
   \<and> (bank = 0 \<and> bank_allowance = 0 \<longrightarrow>
        meta_cost elements (sg_in s) \<le> meta_cost elements (sg_out s))"
proof -
  assume "suggest_transfers pick_rows elements bank bank_allowance = s # rest"
  then have "meta_cost elements (sg_in s) - meta_cost elements (sg_out s) \<le> bank + bank_allowance"
    unfolding suggest_transfers_def Let_def by (rule first_suggestion_budget)
  then show ?thesis by simp
qed

lemma transfer_rows_ids:
  "map pr_element transfer_rows = [1, 3, 4, 5, 6, 8, 9, 10, 11, 13, 14, 2, 7, 12, 15]"
proof -
  have l: "length [1, 1, 1, 1, 1, 1, 1, 1, 1, 1, 1, 0, 0, 0, 0 :: int] = 15" by simp
  have "map pr_element transfer_rows = map pk_element sample_picks"
    by (simp add: transfer_rows_def comp_def)
  then show ?thesis unfolding sample_picks_def squad_picks_elements[OF l] .
qed

lemma transfer_current_scored:
  "current_scored transfer_rows =
     [(1, 0.9), (3, 0.9), (4, 0.9), (5, 0.9), (6, 0.9), (8, 0.9), (9, 0.9), (10, 0.9), (11, 0),
      (13, 0.9), (14, 0.9)]"
proof -
  have rows: "transfer_rows =
     map (\<lambda>x. \<lparr>pr_element = fst x, pr_multiplier = snd x,
                 pr_player = Some (get_elem sample_elements (fst x)),
                 pr_fixture_row = Some \<lparr>was_home = True, opponent_team = Some 2,
                                        opponent_strength = Some 5\<rparr>\<rparr>)
       (zip [1, 3, 4, 5, 6, 8, 9, 10, 11, 13, 14, 2, 7, 12, 15]
            [1, 1, 1, 1, 1, 1, 1, 1, 1, 1, 1, 0, 0, 0, 0])"
    by (simp add: transfer_rows_def sample_picks_def squad_picks_def squad_pick_def)
  have mp: "minutes_proxy (squad_element i ty f) = 120" for i ty f
    by (simp add: minutes_proxy_def squad_element_def nz_def)
  show ?thesis
    unfolding rows using sample_get_elem
    by (simp add: current_scored_def mp int_or_def squad_element_epd)
qed

lemma transfer_candidates:
  "candidate_scores transfer_rows transfer_elements = [(22, 1.5), (21, 0.45)]"
proof -
  have ids: "pr_element ` set transfer_rows = {1, 3, 4, 5, 6, 8, 9, 10, 11, 13, 14, 2, 7, 12, 15}"
  proof -
    have "pr_element ` set transfer_rows = set (map pr_element transfer_rows)" by simp
    then show ?thesis unfolding transfer_rows_ids by simp
  qed
  have f: "first_seen (filter (\<lambda>pid. pid \<notin> pr_element ` set transfer_rows)
                         (map el_id transfer_elements)) = [22, 21]"
    unfolding ids
    by (simp add: transfer_elements_def sample_elements_def squad_element_fields first_seen_def)
  have g: "get_elem transfer_elements 22 =
             \<lparr>el_id = 22, element_type = Some 1, team = Some 3, now_cost = Some 55, form = Num 10,
              ict_index = Num 20, minutes = Some 120, selected_by_percent = Num 1\<rparr>"
          "get_elem transfer_elements 21 =
             \<lparr>el_id = 21, element_type = Some 3, team = Some 2, now_cost = Some 45, form = Num 5,
              ict_index = Missing, minutes = Some 120, selected_by_percent = Num 1\<rparr>"
    by (simp_all add: get_elem_def elem_by_id_def transfer_elements_def)
  show ?thesis
    unfolding candidate_scores_def f
    by (simp add: g expected_points_delta_def minutes_proxy_def nz_def float_or_zero_def
        norm_lin_def sigmoid_def Let_def)
qed

lemma transfer_meta:
  "meta_cost transfer_elements 11 = 50" "meta_cost transfer_elements 1 = 50"
  "meta_cost transfer_elements 3 = 50"
  "meta_cost transfer_elements 21 = 45" "meta_cost transfer_elements 22 = 55"
  "meta_team transfer_elements 11 = 1" "meta_team transfer_elements 1 = 1"
  "meta_team transfer_elements 3 = 1"
  "meta_team transfer_elements 21 = 2" "meta_team transfer_elements 22 = 3"
  "meta_pos transfer_elements 11 = ''MID''" "meta_pos transfer_elements 1 = ''GK''"
  "meta_pos transfer_elements 3 = ''DEF''"
  "meta_pos transfer_elements 21 = ''MID''" "meta_pos transfer_elements 22 = ''GK''"
  by (simp_all add: meta_cost_def meta_team_def meta_pos_def get_elem_def elem_by_id_def
      transfer_elements_def sample_elements_def squad_element_def int_or_def position_code_def)

lemma transfer_loop_sample:
  assumes "tc 2 < 3" "tc 3 < 3"
  shows "snd (snd (transfer_loop transfer_elements
           [(11, 0), (1, 0.9), (3, 0.9), (4, 0.9), (5, 0.9), (6, 0.9), (8, 0.9), (9, 0.9),
            (10, 0.9), (13, 0.9), (14, 0.9)]
           [(22, 1.5), (21, 0.45)] 0 [11, 1, 3] (tc, 0, [])))
         = [\<lparr>sg_out = 11, sg_in = 21, epdelta_out = 0, epdelta_in = 0.45\<rparr>,
            \<lparr>sg_out = 1, sg_in = 22, epdelta_out = 0.9, epdelta_in = 1.5\<rparr>]"
  using assms
  by (simp add: legal_candidates_def transfer_meta sort_desc_def Let_def)

lemma transfer_sorted:
  "sort_key snd (current_scored transfer_rows) =
     [(11, 0), (1, 0.9), (3, 0.9), (4, 0.9), (5, 0.9), (6, 0.9), (8, 0.9), (9, 0.9),
      (10, 0.9), (13, 0.9), (14, 0.9)]"
  unfolding transfer_current_scored by simp

lemma transfer_initial_counts:
  "initial_team_counts transfer_rows transfer_elements 2 = 0"
  "initial_team_counts transfer_rows transfer_elements 3 = 0"
proof -
  have t: "map (meta_team transfer_elements) [1, 3, 4, 5, 6, 8, 9, 10, 11, 13, 14, 2, 7, 12, 15]
           = [1, 1, 1, 1, 1, 1, 1, 1, 1, 1, 1, 1, 1, 1, 1]"
    by (simp add: meta_team_def get_elem_def elem_by_id_def transfer_elements_def
        sample_elements_def squad_element_def int_or_def)
  have r: "remdups [1, 3, 4, 5, 6, 8, 9, 10, 11, 13, 14, 2, 7, 12, 15 :: int]
           = [1, 3, 4, 5, 6, 8, 9, 10, 11, 13, 14, 2, 7, 12, 15]"
    by simp
  show "initial_team_counts transfer_rows transfer_elements 2 = 0"
       "initial_team_counts transfer_rows transfer_elements 3 = 0"
    unfolding initial_team_counts_def transfer_rows_ids r using t by simp_all
qed

lemma transfer_sample_result:
  "suggest_transfers transfer_rows transfer_elements 0 0
     = [\<lparr>sg_out = 11, sg_in = 21, epdelta_out = 0, epdelta_in = 0.45\<rparr>,
        \<lparr>sg_out = 1, sg_in = 22, epdelta_out = 0.9, epdelta_in = 1.5\<rparr>]"
proof -
  have tr: "map fst (take 3 [(11, 0), (1, 0.9), (3, 0.9), (4, 0.9), (5, 0.9), (6, 0.9), (8, 0.9),
              (9, 0.9), (10, 0.9), (13, 0.9), (14, 0.9 :: real)]) = [11, 1, 3 :: int]"
    by simp
  have c: "initial_team_counts transfer_rows transfer_elements 2 < 3"
          "initial_team_counts transfer_rows transfer_elements 3 < 3"
    unfolding transfer_initial_counts by simp_all
  show ?thesis
    unfolding suggest_transfers_def Let_def transfer_sorted transfer_candidates tr
    by (rule transfer_loop_sample[OF c])
qed

text \<open>
  C5 as stated fails: with \<open>bank = 0\<close> and \<open>bank_allowance = 0\<close> the first transfer
  (player 11 out, player 21 in) frees 5, and the second suggestion pairs the incoming
  player 22 (cost 55) with the outgoing player 1 (cost 50).
\<close>

theorem later_suggestion_costs_more:
  "suggest_transfers transfer_rows transfer_elements 0 0
     = [\<lparr>sg_out = 11, sg_in = 21, epdelta_out = 0, epdelta_in = 0.45\<rparr>,
        \<lparr>sg_out = 1, sg_in = 22, epdelta_out = 0.9, epdelta_in = 1.5\<rparr>]
   \<and> meta_cost transfer_elements 22 = 55 \<and> meta_cost transfer_elements 1 = 50
   \<and> meta_cost transfer_elements 1 < meta_cost transfer_elements 22"
  using transfer_sample_result by (simp add: transfer_meta)

theorem first_suggestion_within_budget_witness:
  "suggest_transfers transfer_rows transfer_elements 0 0
     = \<lparr>sg_out = 11, sg_in = 21, epdelta_out = 0, epdelta_in = 0.45\<rparr>
       # [\<lparr>sg_out = 1, sg_in = 22, epdelta_out = 0.9, epdelta_in = 1.5\<rparr>]
   \<and> meta_cost transfer_elements 21 \<le> meta_cost transfer_elements 11"
  using transfer_sample_result
    first_suggestion_within_budget [OF transfer_sample_result]
  by simp

end
